theory Spec2Isabelle
  imports Main
begin

section \<open>Data model\<close>

text \<open>
  The voting core of the backend: the \<open>Vote\<close> collection (models/Vote.js), the vote
  counters on posts and comments (models/Post.js, the comment model), the karma field of
  users (models/User.js) and the route handlers that change them (routes/posts.js,
  routes/comments.js).

  A JSON body value as the handler receives it in \<open>req.body.value\<close>. JSON numbers are
  modelled by integers: a fractional number is never one of 1, 0, -1 and takes the same
  path as any other integer outside that list.
\<close>

datatype jsvalue = JUndefined | JNull | JBool bool | JNum int | JStr string

text \<open>
  What the handlers take from their surroundings: the ECMAScript conversion of a string to
  a number (the integer it gives, \<open>None\<close> when the result is \<open>NaN\<close> or not an integer), which the source uses
  through \<open>Number(value)\<close> and through Mongoose's cast of the \<open>value\<close> path, and whether a
  storage call of this request throws: a write of the transaction (a write conflict, a
  duplicate key), or the karma recalculation.
\<close>

record env =
  StringToNumber :: "string \<Rightarrow> int option"
  txn_fault :: bool
  karma_fault :: bool

type_synonym objectId = nat

datatype targetType = Post | Comment

text \<open>models/Vote.js: one document of the ledger. The path \<open>value\<close> is \<open>vote_value\<close> here.\<close>

record vote =
  user :: objectId
  targetType :: targetType
  target :: objectId
  vote_value :: int

text \<open>
  The fields of a post that the voting core reads and writes (models/Post.js); \<open>ident\<close>
  is \<open>_id\<close>. A comment has the same fields and the post it belongs to.
\<close>

record votable =
  ident :: objectId
  author :: objectId
  upvotes :: int
  downvotes :: int

record comment = votable +
  post :: objectId

record user_doc =
  user_ident :: objectId
  karma :: int

record db =
  posts :: "votable list"
  comments :: "comment list"
  votes :: "vote list"
  users :: "user_doc list"

datatype error = CastError | ValidationError | DuplicateKey | DocumentNotFound | StorageError

text \<open>A route parameter \<open>:id\<close>: a string that casts to an ObjectId, or one that does not.\<close>

datatype idparam = ObjectId objectId | Malformed

text \<open>An HTTP response: status and message.\<close>

datatype response = Response nat string

record request =
  req_user :: objectId
  param_id :: idparam
  body_value :: jsvalue

section \<open>Storage operations\<close>

definition findById :: "('a votable_scheme) list \<Rightarrow> objectId \<Rightarrow> 'a votable_scheme option" where
  "findById docs i = find (\<lambda>d. ident d = i) docs"

definition findUserById :: "user_doc list \<Rightarrow> objectId \<Rightarrow> user_doc option" where
  "findUserById docs i = find (\<lambda>d. user_ident d = i) docs"

text \<open>\<open>Vote.findOne({ user, targetType, target })\<close>: the first matching document.\<close>

definition findOne :: "vote list \<Rightarrow> objectId \<Rightarrow> targetType \<Rightarrow> objectId \<Rightarrow> vote option" where
  "findOne vs u t i = find (\<lambda>v. user v = u \<and> targetType v = t \<and> target v = i) vs"

text \<open>An update of one stored document: the first one that matches is rewritten.\<close>

fun update_first :: "('a \<Rightarrow> bool) \<Rightarrow> ('a \<Rightarrow> 'a) \<Rightarrow> 'a list \<Rightarrow> 'a list" where
  "update_first P f [] = []"
| "update_first P f (x # xs) = (if P x then f x # xs else x # update_first P f xs)"

text \<open>
  \<open>vote.save()\<close> of a loaded vote document whose value was assigned: the stored document
  gets the new value. \<open>vote.deleteOne()\<close> removes the stored document.
\<close>

definition save_vote :: "vote \<Rightarrow> int \<Rightarrow> vote list \<Rightarrow> vote list" where
  "save_vote v n vs = update_first (\<lambda>w. w = v) (\<lambda>w. w\<lparr>vote_value := n\<rparr>) vs"

definition deleteOne :: "vote \<Rightarrow> vote list \<Rightarrow> vote list" where
  "deleteOne v vs = remove1 v vs"

text \<open>
  \<open>vote.save()\<close> of a new document. The unique index of models/Vote.js on
  (user, targetType, target) refuses a second document with the same key.
\<close>

definition insert_vote :: "vote \<Rightarrow> vote list \<Rightarrow> error + vote list" where
  "insert_vote v vs =
     (if list_ex (\<lambda>w. user w = user v \<and> targetType w = targetType v \<and> target w = target v) vs
      then Inl DuplicateKey else Inr (vs @ [v]))"

text \<open>
  \<open>post.save()\<close> of a loaded document: Mongoose writes the paths whose value differs from
  the loaded one to the stored document with that \<open>_id\<close>, and throws when there is none.
\<close>

definition save_counters ::
  "'a votable_scheme \<Rightarrow> 'a votable_scheme \<Rightarrow> ('a votable_scheme) list \<Rightarrow> error + ('a votable_scheme) list" where
  "save_counters loaded doc docs =
     (if list_ex (\<lambda>d. ident d = ident doc) docs
      then Inr (update_first (\<lambda>d. ident d = ident doc)
                  (\<lambda>d. d\<lparr>upvotes := (if upvotes doc \<noteq> upvotes loaded then upvotes doc else upvotes d),
                          downvotes := (if downvotes doc \<noteq> downvotes loaded then downvotes doc else downvotes d)\<rparr>)
                  docs)
      else Inl DocumentNotFound)"

definition save_user :: "user_doc \<Rightarrow> user_doc list \<Rightarrow> user_doc list" where
  "save_user u docs = update_first (\<lambda>d. user_ident d = user_ident u) (\<lambda>d. d\<lparr>karma := karma u\<rparr>) docs"

section \<open>Karma recalculation (models/User.js, updateKarma)\<close>

text \<open>
  The aggregation pipeline \<open>$match\<close> author, \<open>$project\<close> upvotes - downvotes, \<open>$group\<close> sum:
  no result document when nothing matches, else one document holding the total.
\<close>

definition aggregate_karma :: "objectId \<Rightarrow> ('a votable_scheme) list \<Rightarrow> int list" where
  "aggregate_karma uid docs =
     (let matched = filter (\<lambda>d. author d = uid) docs;
          projected = map (\<lambda>d. upvotes d - downvotes d) matched
      in if projected = [] then [] else [sum_list projected])"

definition updateKarma :: "db \<Rightarrow> user_doc \<Rightarrow> db \<times> user_doc \<times> int" where
  "updateKarma st this =
     (let postKarma = aggregate_karma (user_ident this) (posts st);
          commentKarma = aggregate_karma (user_ident this) (comments st);
          this' = this\<lparr>karma := (if length postKarma > 0 then postKarma ! 0 else 0)
                                + (if length commentKarma > 0 then commentKarma ! 0 else 0)\<rparr>
      in (st\<lparr>users := save_user this' (users st)\<rparr>, this', karma this'))"

text \<open>The karma of section 3 of the specification: the sum over the user's posts and comments.\<close>

definition karma_sum :: "db \<Rightarrow> objectId \<Rightarrow> int" where
  "karma_sum st uid =
     (\<Sum>d\<leftarrow>filter (\<lambda>d. author d = uid) (posts st). upvotes d - downvotes d)
   + (\<Sum>d\<leftarrow>filter (\<lambda>d. author d = uid) (comments st). upvotes d - downvotes d)"

section \<open>The vote handlers (routes/posts.js and routes/comments.js, POST /:id/vote)\<close>

text \<open>\<open>Number(value)\<close>; \<open>None\<close> is \<open>NaN\<close> (or a string that is no integer).\<close>

definition Number_js :: "env \<Rightarrow> jsvalue \<Rightarrow> int option" where
  "Number_js E v =
     (case v of JUndefined \<Rightarrow> None | JNull \<Rightarrow> Some 0
      | JBool b \<Rightarrow> Some (if b then 1 else 0) | JNum n \<Rightarrow> Some n
      | JStr s \<Rightarrow> StringToNumber E s)"

text \<open>The validation \<open>[1, 0, -1].includes(Number(value))\<close>.\<close>

definition valid_vote_value :: "env \<Rightarrow> jsvalue \<Rightarrow> bool" where
  "valid_vote_value E v = (case Number_js E v of None \<Rightarrow> False | Some n \<Rightarrow> n \<in> set [1, 0, -1])"

text \<open>
  What Mongoose stores for the path \<open>value\<close> (type Number, required, enum [-1, 0, 1]) when
  the document is saved: null, undefined and the empty string fail \<open>required\<close>; a string or
  a boolean is converted with \<open>Number\<close>; a number outside the enum fails validation.
\<close>

definition cast_value :: "env \<Rightarrow> jsvalue \<Rightarrow> error + int" where
  "cast_value E v =
     (case (case v of JUndefined \<Rightarrow> Inl ValidationError | JNull \<Rightarrow> Inl ValidationError
            | JBool b \<Rightarrow> Inr (if b then 1 else 0) | JNum n \<Rightarrow> Inr n
            | JStr s \<Rightarrow> (if s = [] then Inl ValidationError
                         else case StringToNumber E s of None \<Rightarrow> Inl CastError | Some n \<Rightarrow> Inr n))
      of Inl e \<Rightarrow> Inl e
       | Inr n \<Rightarrow> if n \<in> set [-1, 0, 1] then Inr n else Inl ValidationError)"

text \<open>
  The body of the inner \<open>try\<close> up to the counter assignments (posts.js 296-348, comments.js
  184-236; the two differ in the names \<open>post\<close>/\<open>comment\<close> and the target type only).
  \<open>doc\<close> is the post or comment the handler loaded; the comparisons \<open>value === 0\<close>,
  \<open>value === 1\<close>, \<open>value === -1\<close> are strict, on the body value as received.
\<close>

definition apply_vote ::
  "env \<Rightarrow> vote list \<Rightarrow> objectId \<Rightarrow> targetType \<Rightarrow> jsvalue \<Rightarrow> 'a votable_scheme
   \<Rightarrow> error + (vote list \<times> 'a votable_scheme)" where
  "apply_vote E vs u t val doc =
     (let vote = findOne vs u t (ident doc);
          previousValue = (case vote of None \<Rightarrow> 0 | Some v \<Rightarrow> vote_value v)
      in if val = JNum 0 then
           (case vote of
              None \<Rightarrow> Inr (vs, doc)
            | Some v \<Rightarrow>
                Inr (deleteOne v vs,
                     if previousValue = 1 then doc\<lparr>upvotes := max 0 (upvotes doc - 1)\<rparr>
                     else if previousValue = -1 then doc\<lparr>downvotes := max 0 (downvotes doc - 1)\<rparr>
                     else doc))
         else
           (case vote of
              Some v \<Rightarrow>
                (case cast_value E val of
                   Inl e \<Rightarrow> Inl e
                 | Inr n \<Rightarrow>
                     Inr (save_vote v n vs,
                          if previousValue = 1 \<and> val = JNum (-1)
                          then doc\<lparr>upvotes := max 0 (upvotes doc - 1), downvotes := downvotes doc + 1\<rparr>
                          else if previousValue = -1 \<and> val = JNum 1
                          then doc\<lparr>downvotes := max 0 (downvotes doc - 1), upvotes := upvotes doc + 1\<rparr>
                          else doc))
            | None \<Rightarrow>
                (case cast_value E val of
                   Inl e \<Rightarrow> Inl e
                 | Inr n \<Rightarrow>
                     (case insert_vote \<lparr>user = u, targetType = t, target = ident doc, vote_value = n\<rparr> vs of
                        Inl e \<Rightarrow> Inl e
                      | Inr vs' \<Rightarrow>
                          Inr (vs',
                               if val = JNum 1 then doc\<lparr>upvotes := upvotes doc + 1\<rparr>
                               else if val = JNum (-1) then doc\<lparr>downvotes := downvotes doc + 1\<rparr>
                               else doc)))))"

text \<open>
  The writes of the transaction: the ledger write, then \<open>post.save({ session })\<close> of the
  loaded document against the stored collection. Any throw leaves the \<open>try\<close>.
\<close>

definition vote_writes ::
  "env \<Rightarrow> vote list \<Rightarrow> objectId \<Rightarrow> targetType \<Rightarrow> jsvalue \<Rightarrow> 'a votable_scheme
   \<Rightarrow> ('a votable_scheme) list \<Rightarrow> error + (vote list \<times> ('a votable_scheme) list)" where
  "vote_writes E vs u t val loaded docs =
     (case apply_vote E vs u t val loaded of
        Inl e \<Rightarrow> Inl e
      | Inr (vs', doc') \<Rightarrow>
          (case save_counters loaded doc' docs of
             Inl e \<Rightarrow> Inl e
           | Inr docs' \<Rightarrow> if txn_fault E then Inl StorageError else Inr (vs', docs')))"

text \<open>
  \<open>User.findById(post.author)\<close> and \<open>author.updateKarma()\<close>. Neither call passes the
  session, so the aggregation reads the stored collections, not the pending writes of the
  transaction.
\<close>

definition recalculate_author :: "env \<Rightarrow> db \<Rightarrow> objectId \<Rightarrow> error + user_doc list" where
  "recalculate_author E st a =
     (case findUserById (users st) a of
        None \<Rightarrow> Inr (users st)
      | Some author_doc \<Rightarrow>
          if karma_fault E then Inl StorageError
          else Inr (users (fst (updateKarma st author_doc))))"

text \<open>
  The handler up to the start of the transaction (posts.js 276-288): the validation and
  \<open>Post.findById\<close>. An id that does not cast makes \<open>findById\<close> throw, and the outer
  \<open>catch\<close> of this route answers 500.
\<close>

definition vote_post_load :: "env \<Rightarrow> db \<Rightarrow> request \<Rightarrow> response + votable" where
  "vote_post_load E st rq =
     (if \<not> valid_vote_value E (body_value rq) then Inl (Response 400 ''Invalid vote value'')
      else case param_id rq of
             Malformed \<Rightarrow> Inl (Response 500 ''Server error'')
           | ObjectId i \<Rightarrow>
               (case findById (posts st) i of
                  None \<Rightarrow> Inl (Response 404 ''Post not found'')
                | Some p \<Rightarrow> Inr p))"

text \<open>
  The transaction (posts.js 290-373) for the document loaded before it: on a throw the
  transaction is aborted and the answer is 500; otherwise it is committed.
\<close>

definition vote_post_txn :: "env \<Rightarrow> db \<Rightarrow> request \<Rightarrow> votable \<Rightarrow> db \<times> response" where
  "vote_post_txn E st rq loaded =
     (case vote_writes E (votes st) (req_user rq) Post (body_value rq) loaded (posts st) of
        Inl e \<Rightarrow> (st, Response 500 ''Server error'')
      | Inr (vs', posts') \<Rightarrow>
          (case recalculate_author E st (author loaded) of
             Inl e \<Rightarrow> (st, Response 500 ''Server error'')
           | Inr users' \<Rightarrow>
               (st\<lparr>posts := posts', votes := vs', users := users'\<rparr>, Response 200 ''Vote recorded'')))"

definition vote_post :: "env \<Rightarrow> db \<Rightarrow> request \<Rightarrow> db \<times> response" where
  "vote_post E st rq =
     (case vote_post_load E st rq of
        Inl r \<Rightarrow> (st, r)
      | Inr p \<Rightarrow> vote_post_txn E st rq p)"

text \<open>The same for comments (comments.js 164-261).\<close>

definition vote_comment_load :: "env \<Rightarrow> db \<Rightarrow> request \<Rightarrow> response + comment" where
  "vote_comment_load E st rq =
     (if \<not> valid_vote_value E (body_value rq) then Inl (Response 400 ''Invalid vote value'')
      else case param_id rq of
             Malformed \<Rightarrow> Inl (Response 500 ''Server error'')
           | ObjectId i \<Rightarrow>
               (case findById (comments st) i of
                  None \<Rightarrow> Inl (Response 404 ''Comment not found'')
                | Some c \<Rightarrow> Inr c))"

definition vote_comment_txn :: "env \<Rightarrow> db \<Rightarrow> request \<Rightarrow> comment \<Rightarrow> db \<times> response" where
  "vote_comment_txn E st rq loaded =
     (case vote_writes E (votes st) (req_user rq) Comment (body_value rq) loaded (comments st) of
        Inl e \<Rightarrow> (st, Response 500 ''Server error'')
      | Inr (vs', comments') \<Rightarrow>
          (case recalculate_author E st (author loaded) of
             Inl e \<Rightarrow> (st, Response 500 ''Server error'')
           | Inr users' \<Rightarrow>
               (st\<lparr>comments := comments', votes := vs', users := users'\<rparr>, Response 200 ''Vote recorded'')))"

definition vote_comment :: "env \<Rightarrow> db \<Rightarrow> request \<Rightarrow> db \<times> response" where
  "vote_comment E st rq =
     (case vote_comment_load E st rq of
        Inl r \<Rightarrow> (st, r)
      | Inr c \<Rightarrow> vote_comment_txn E st rq c)"

section \<open>Deleting posts and comments\<close>

text \<open>
  DELETE /api/posts/:id (posts.js 239-269): the post, the comments of the post and the
  votes whose target is the post. This route answers 404 for an id that does not cast.
\<close>

definition delete_post :: "db \<Rightarrow> request \<Rightarrow> db \<times> response" where
  "delete_post st rq =
     (case param_id rq of
        Malformed \<Rightarrow> (st, Response 404 ''Post not found'')
      | ObjectId i \<Rightarrow>
          (case findById (posts st) i of
             None \<Rightarrow> (st, Response 404 ''Post not found'')
           | Some p \<Rightarrow>
               if author p \<noteq> req_user rq
               then (st, Response 403 ''Not authorized to delete this post'')
               else (st\<lparr>posts := remove1 p (posts st),
                        comments := filter (\<lambda>c. post c \<noteq> ident p) (comments st),
                        votes := filter (\<lambda>v. \<not> (targetType v = Post \<and> target v = ident p)) (votes st)\<rparr>,
                     Response 200 ''Post removed'')))"

text \<open>DELETE /api/comments/:id (comments.js 128-157): the comment and the votes on it.\<close>

definition delete_comment :: "db \<Rightarrow> request \<Rightarrow> db \<times> response" where
  "delete_comment st rq =
     (case param_id rq of
        Malformed \<Rightarrow> (st, Response 404 ''Comment not found'')
      | ObjectId i \<Rightarrow>
          (case findById (comments st) i of
             None \<Rightarrow> (st, Response 404 ''Comment not found'')
           | Some c \<Rightarrow>
               if author c \<noteq> req_user rq
               then (st, Response 403 ''Not authorized to delete this comment'')
               else (st\<lparr>comments := remove1 c (comments st),
                        votes := filter (\<lambda>v. \<not> (targetType v = Comment \<and> target v = ident c)) (votes st)\<rparr>,
                     Response 200 ''Comment removed'')))"

section \<open>Creating posts, comments and users\<close>

text \<open>
  POST /api/posts (posts.js 161-170) and POST /api/posts/:id/comments (posts.js 512-523)
  store a document with the schema defaults \<open>upvotes = 0\<close>, \<open>downvotes = 0\<close> and the
  requester as author; a new user has karma 0. The new \<open>_id\<close> is chosen by the driver:
  here it is given, and nothing is stored when it is in use already.
\<close>

definition create_post :: "db \<Rightarrow> objectId \<Rightarrow> objectId \<Rightarrow> db" where
  "create_post st u i =
     (if list_ex (\<lambda>d. ident d = i) (posts st) then st
      else st\<lparr>posts := posts st @ [\<lparr>ident = i, author = u, upvotes = 0, downvotes = 0\<rparr>]\<rparr>)"

definition create_comment :: "db \<Rightarrow> objectId \<Rightarrow> objectId \<Rightarrow> objectId \<Rightarrow> db" where
  "create_comment st u i pid =
     (case findById (posts st) pid of
        None \<Rightarrow> st
      | Some p \<Rightarrow>
          if list_ex (\<lambda>d. ident d = i) (comments st) then st
          else st\<lparr>comments := comments st
                    @ [\<lparr>ident = i, author = u, upvotes = 0, downvotes = 0, post = pid\<rparr>]\<rparr>)"

definition register_user :: "db \<Rightarrow> objectId \<Rightarrow> db" where
  "register_user st u =
     (if list_ex (\<lambda>d. user_ident d = u) (users st) then st
      else st\<lparr>users := users st @ [\<lparr>user_ident = u, karma = 0\<rparr>]\<rparr>)"

section \<open>Runs of the service\<close>

datatype operation =
    VotePost env request
  | VoteComment env request
  | DeletePost request
  | DeleteComment request
  | CreatePost objectId objectId
  | CreateComment objectId objectId objectId
  | Register objectId

fun exec :: "db \<Rightarrow> operation \<Rightarrow> db" where
  "exec st (VotePost E rq) = fst (vote_post E st rq)"
| "exec st (VoteComment E rq) = fst (vote_comment E st rq)"
| "exec st (DeletePost rq) = fst (delete_post st rq)"
| "exec st (DeleteComment rq) = fst (delete_comment st rq)"
| "exec st (CreatePost u i) = create_post st u i"
| "exec st (CreateComment u i pid) = create_comment st u i pid"
| "exec st (Register u) = register_user st u"

definition empty_db :: db where
  "empty_db = \<lparr>posts = [], comments = [], votes = [], users = []\<rparr>"

text \<open>The state after the requests \<open>ops\<close>, served one after the other from the empty database.\<close>

definition run :: "operation list \<Rightarrow> db" where
  "run ops = foldl exec empty_db ops"

text \<open>
  Requests served at the same time. Every \<open>await\<close> of a handler lets another request run;
  in particular all requests may pass \<open>Post.findById\<close> (which is outside the transaction)
  before the first transaction starts. In this schedule the transactions themselves run one
  after the other, so none of them meets a write conflict.
\<close>

definition load_all :: "env \<Rightarrow> db \<Rightarrow> request list \<Rightarrow> (request \<times> votable) list" where
  "load_all E st rqs =
     List.map_filter (\<lambda>rq. case vote_post_load E st rq of Inl r \<Rightarrow> None | Inr p \<Rightarrow> Some (rq, p)) rqs"

fun commit_all :: "env \<Rightarrow> db \<Rightarrow> (request \<times> votable) list \<Rightarrow> db" where
  "commit_all E st [] = st"
| "commit_all E st ((rq, p) # rest) = commit_all E (fst (vote_post_txn E st rq p)) rest"

definition loads_then_transactions :: "env \<Rightarrow> db \<Rightarrow> request list \<Rightarrow> db" where
  "loads_then_transactions E st rqs = commit_all E st (load_all E st rqs)"

section \<open>The specification's side\<close>

text \<open>The transition table of section 4.2: ledger action, upvotes delta, downvotes delta.\<close>

datatype ledger_action = Create int | Delete | Update int | NoOp

definition transition_table :: "int \<Rightarrow> int \<Rightarrow> ledger_action \<times> int \<times> int" where
  "transition_table previous requested =
     (if previous = 0 \<and> requested = 1 then (Create 1, 1, 0)
      else if previous = 0 \<and> requested = -1 then (Create (-1), 0, 1)
      else if previous = 1 \<and> requested = 0 then (Delete, -1, 0)
      else if previous = -1 \<and> requested = 0 then (Delete, 0, -1)
      else if previous = 1 \<and> requested = -1 then (Update (-1), -1, 1)
      else if previous = -1 \<and> requested = 1 then (Update 1, 1, -1)
      else (NoOp, 0, 0))"

text \<open>A delta applied to a counter; a decremented counter is clamped at zero.\<close>

definition apply_delta :: "int \<Rightarrow> int \<Rightarrow> int" where
  "apply_delta c d = (if d < 0 then max 0 (c + d) else c + d)"

definition has_key :: "objectId \<Rightarrow> targetType \<Rightarrow> objectId \<Rightarrow> vote \<Rightarrow> bool" where
  "has_key u t i v = (user v = u \<and> targetType v = t \<and> target v = i)"

definition perform_action ::
  "ledger_action \<Rightarrow> objectId \<Rightarrow> targetType \<Rightarrow> objectId \<Rightarrow> vote list \<Rightarrow> vote list" where
  "perform_action a u t i vs =
     (case a of
        Create n \<Rightarrow> vs @ [\<lparr>user = u, targetType = t, target = i, vote_value = n\<rparr>]
      | Delete \<Rightarrow> filter (\<lambda>v. \<not> has_key u t i v) vs
      | Update n \<Rightarrow> map (\<lambda>v. if has_key u t i v then v\<lparr>vote_value := n\<rparr> else v) vs
      | NoOp \<Rightarrow> vs)"

text \<open>The voter's current value for a target, as the handler computes \<open>previousValue\<close>.\<close>

definition ledger_value :: "vote list \<Rightarrow> objectId \<Rightarrow> targetType \<Rightarrow> objectId \<Rightarrow> int" where
  "ledger_value vs u t i = (case findOne vs u t i of None \<Rightarrow> 0 | Some v \<Rightarrow> vote_value v)"

text \<open>
  What the table asks of a request: the ledger after the action and the target with the
  deltas applied.
\<close>

definition reconcile_spec ::
  "vote list \<Rightarrow> objectId \<Rightarrow> targetType \<Rightarrow> int \<Rightarrow> 'a votable_scheme \<Rightarrow> vote list \<times> 'a votable_scheme" where
  "reconcile_spec vs u t requested doc =
     (case transition_table (ledger_value vs u t (ident doc)) requested of
        (a, du, dd) \<Rightarrow>
          (perform_action a u t (ident doc) vs,
           doc\<lparr>upvotes := apply_delta (upvotes doc) du, downvotes := apply_delta (downvotes doc) dd\<rparr>))"

text \<open>
  The voter's record for the target, if there is one, holds 1 or -1: the vote record of
  section 3 of the specification, where the value 0 is the absence of a record.
\<close>

definition signed_or_absent :: "vote list \<Rightarrow> objectId \<Rightarrow> targetType \<Rightarrow> objectId \<Rightarrow> bool" where
  "signed_or_absent vs u t i =
     (case findOne vs u t i of None \<Rightarrow> True | Some v \<Rightarrow> vote_value v = 1 \<or> vote_value v = -1)"

text \<open>Uniqueness: no two vote documents with the same (user, targetType, target).\<close>

definition vote_key :: "vote \<Rightarrow> objectId \<times> targetType \<times> objectId" where
  "vote_key v = (user v, targetType v, target v)"

definition unique_votes :: "vote list \<Rightarrow> bool" where
  "unique_votes vs = distinct (map vote_key vs)"

text \<open>
  The reconciler of section 7 of the specification, which answers a conflicting concurrent
  writer by running the whole handler again, once per element of a bounded list of
  attempts; each attempt has its own surroundings.
\<close>

fun vote_post_with_retry :: "env list \<Rightarrow> db \<Rightarrow> request \<Rightarrow> db \<times> response" where
  "vote_post_with_retry [] st rq = (st, Response 500 ''Server error'')"
| "vote_post_with_retry (E # Es) st rq =
     (if txn_fault E \<and> snd (vote_post E st rq) = Response 500 ''Server error'' \<and> Es \<noteq> []
      then vote_post_with_retry Es st rq
      else vote_post E st rq)"

section \<open>Concrete surroundings and states\<close>

text \<open>
  The byte length of a white space or line terminator code point at the head of a string
  (in UTF-8), 0 when there is none.
\<close>

definition white_space_length :: "string \<Rightarrow> nat" where
  "white_space_length s =
     (let bs = map (\<lambda>c. (of_char c :: int)) (take 3 s)
      in if bs \<noteq> [] \<and> hd bs \<in> set [9, 10, 11, 12, 13, 32] then 1
         else if take 2 bs = [194, 160] then 2
         else if bs \<in> set [[225, 154, 128], [226, 128, 168], [226, 128, 169], [226, 128, 175],
                             [226, 129, 159], [227, 128, 128], [239, 187, 191]] then 3
         else if length bs = 3 \<and> take 2 bs = [226, 128] \<and> 128 \<le> bs ! 2 \<and> bs ! 2 \<le> 138 then 3
         else 0)"

fun trim_start :: "string \<Rightarrow> string" where
  "trim_start [] = []"
| "trim_start (c # cs) =
     (if white_space_length (c # cs) = 0 then c # cs
      else trim_start (drop (white_space_length (c # cs) - 1) cs))"

text \<open>Digits in base 2, 8, 10 or 16 and the value of a digit string.\<close>

definition digit_value :: "int \<Rightarrow> char \<Rightarrow> int option" where
  "digit_value base c =
     (let n = (of_char c :: int);
          d = (if 48 \<le> n \<and> n \<le> 57 then n - 48
               else if 97 \<le> n \<and> n \<le> 102 then n - 87
               else if 65 \<le> n \<and> n \<le> 70 then n - 55
               else 16)
      in if d < base then Some d else None)"

definition is_digit :: "int \<Rightarrow> char \<Rightarrow> bool" where
  "is_digit base c = (digit_value base c \<noteq> None)"

definition digits_value :: "int \<Rightarrow> string \<Rightarrow> int" where
  "digits_value base cs =
     foldl (\<lambda>acc c. base * acc + (case digit_value base c of None \<Rightarrow> 0 | Some d \<Rightarrow> d)) 0 cs"

text \<open>
  The number for the decimal literal with sign \<open>neg\<close> and value \<open>m * 10 ^ scale\<close>. A value
  that is no integer is rounded to the nearest double, ties to even: it becomes 0 up to
  \<open>2 ^ -1075\<close> and 1 from \<open>1 - 2 ^ -54\<close> to \<open>1 + 2 ^ -53\<close>.
\<close>

definition decimal_number :: "bool \<Rightarrow> int \<Rightarrow> int \<Rightarrow> int option" where
  "decimal_number neg m scale =
     (let sgn = (if neg then -1 else 1 :: int)
      in if m = 0 then Some 0
         else if 0 \<le> scale then Some (sgn * m * 10 ^ nat scale)
         else let d = (10 :: int) ^ nat (- scale)
              in if d dvd m then Some (sgn * (m div d))
                 else if m * 2 ^ 1075 \<le> d then Some 0
                 else if (2 ^ 54 - 1) * d \<le> 2 ^ 54 * m \<and> 2 ^ 53 * m \<le> (2 ^ 53 + 1) * d
                      then Some sgn
                 else None)"

text \<open>The exponent part of a decimal literal, if there is one, and the rest of the string.\<close>

definition exponent_part :: "string \<Rightarrow> (int \<times> string) option" where
  "exponent_part s =
     (case s of
        [] \<Rightarrow> Some (0, [])
      | c # cs \<Rightarrow>
          if c = CHR ''e'' \<or> c = CHR ''E'' then
            (let neg = (cs \<noteq> [] \<and> hd cs = CHR ''-'');
                 signed = (cs \<noteq> [] \<and> (hd cs = CHR ''-'' \<or> hd cs = CHR ''+''));
                 ds = (if signed then tl cs else cs);
                 ed = takeWhile (is_digit 10) ds
             in if ed = [] then None
                else Some ((if neg then -1 else 1) * digits_value 10 ed, dropWhile (is_digit 10) ds))
          else Some (0, s))"

text \<open>
  Digits, an optional fraction and an optional exponent, followed by white space only.
  \<open>Infinity\<close> has no digits and is no integer.
\<close>

definition unsigned_decimal :: "bool \<Rightarrow> string \<Rightarrow> int option" where
  "unsigned_decimal neg s =
     (let ip = takeWhile (is_digit 10) s;
          r1 = dropWhile (is_digit 10) s;
          dot = (r1 \<noteq> [] \<and> hd r1 = CHR ''.'');
          fp = (if dot then takeWhile (is_digit 10) (tl r1) else []);
          r2 = (if dot then dropWhile (is_digit 10) (tl r1) else r1)
      in if ip = [] \<and> fp = [] then None
         else case exponent_part r2 of
                None \<Rightarrow> None
              | Some (e, r3) \<Rightarrow>
                  if trim_start r3 \<noteq> [] then None
                  else decimal_number neg (digits_value 10 (ip @ fp)) (e - int (length fp)))"

text \<open>A literal with prefix \<open>0x\<close>, \<open>0o\<close> or \<open>0b\<close>: digits of that base, then white space only.\<close>

definition non_decimal :: "int \<Rightarrow> string \<Rightarrow> int option" where
  "non_decimal base s =
     (let ds = takeWhile (is_digit base) s; r = dropWhile (is_digit base) s
      in if ds = [] \<or> trim_start r \<noteq> [] then None else Some (digits_value base ds))"

text \<open>
  \<open>Number(s)\<close> for a string: white space is trimmed, the empty string is 0, a literal
  with a base prefix has no sign. The result is \<open>Some 1\<close>, \<open>Some 0\<close> or \<open>Some (-1)\<close> exactly
  when \<open>Number(s)\<close> is 1, 0 or -1. For every other string it is \<open>None\<close> or another integer
  (the value of the literal when that is an integer); the handlers tell none of these apart.
\<close>

definition StringToNumber_js :: "string \<Rightarrow> int option" where
  "StringToNumber_js s =
     (case trim_start s of
        [] \<Rightarrow> Some 0
      | c # cs \<Rightarrow>
          if c = CHR ''0'' \<and> cs \<noteq> [] \<and> hd cs \<in> set ''xX'' then non_decimal 16 (tl cs)
          else if c = CHR ''0'' \<and> cs \<noteq> [] \<and> hd cs \<in> set ''oO'' then non_decimal 8 (tl cs)
          else if c = CHR ''0'' \<and> cs \<noteq> [] \<and> hd cs \<in> set ''bB'' then non_decimal 2 (tl cs)
          else if c = CHR ''-'' then unsigned_decimal True cs
          else if c = CHR ''+'' then unsigned_decimal False cs
          else unsigned_decimal False (c # cs))"

definition no_faults :: env where
  "no_faults = \<lparr>StringToNumber = StringToNumber_js, txn_fault = False, karma_fault = False\<rparr>"

text \<open>
  A post 1 and a comment 2 on it, both by user 10 and without votes; users 20 and 21.
\<close>

definition db1 :: db where
  "db1 = \<lparr>posts = [\<lparr>ident = 1, author = 10, upvotes = 0, downvotes = 0\<rparr>],
          comments = [\<lparr>ident = 2, author = 10, upvotes = 0, downvotes = 0, post = 1\<rparr>],
          votes = [],
          users = [\<lparr>user_ident = 10, karma = 0\<rparr>, \<lparr>user_ident = 20, karma = 0\<rparr>,
                   \<lparr>user_ident = 21, karma = 0\<rparr>]\<rparr>"

text \<open>The same after user 20 has voted +1 on the post.\<close>

definition db2 :: db where
  "db2 = db1\<lparr>posts := [\<lparr>ident = 1, author = 10, upvotes = 1, downvotes = 0\<rparr>],
             votes := [\<lparr>user = 20, targetType = Post, target = 1, vote_value = 1\<rparr>]\<rparr>"

text \<open>Posts and a comment with votes counted, for the karma of user 10.\<close>

definition db3 :: db where
  "db3 = \<lparr>posts = [\<lparr>ident = 1, author = 10, upvotes = 5, downvotes = 2\<rparr>,
                   \<lparr>ident = 3, author = 11, upvotes = 7, downvotes = 0\<rparr>],
          comments = [\<lparr>ident = 2, author = 10, upvotes = 0, downvotes = 4, post = 1\<rparr>],
          votes = [],
          users = [\<lparr>user_ident = 10, karma = 0\<rparr>, \<lparr>user_ident = 11, karma = 0\<rparr>]\<rparr>"

text \<open>User 20 has voted +1 on the post and user 21 has voted -1 on the comment.\<close>

definition db4 :: db where
  "db4 = db1\<lparr>posts := [\<lparr>ident = 1, author = 10, upvotes = 1, downvotes = 0\<rparr>],
             comments := [\<lparr>ident = 2, author = 10, upvotes = 0, downvotes = 1, post = 1\<rparr>],
             votes := [\<lparr>user = 20, targetType = Post, target = 1, vote_value = 1\<rparr>,
                       \<lparr>user = 21, targetType = Comment, target = 2, vote_value = -1\<rparr>]\<rparr>"

text \<open>Surroundings in which the karma recalculation throws, and in which a write of the transaction does.\<close>

definition karma_fails :: env where
  "karma_fails = no_faults\<lparr>karma_fault := True\<rparr>"

definition write_conflict :: env where
  "write_conflict = no_faults\<lparr>txn_fault := True\<rparr>"

section \<open>Properties\<close>

subsection \<open>The conversion of strings\<close>

lemma StringToNumber_js_examples:
  "map StringToNumber_js
     [''0'', ''1'', ''-1'', ''1.0'', '' 1'', '' '', [], ''1e0'', ''0x1'', ''up'', ''0.5'', ''2'']
   = [Some 0, Some 1, Some (-1), Some 1, Some 1, Some 0, Some 0, Some 1, Some 1, None, None, Some 2]"
  by code_simp

subsection \<open>Karma recalculation\<close>

lemma aggregate_karma_total:
  "(let r = aggregate_karma uid docs in if length r > 0 then r ! 0 else 0)
   = (\<Sum>d\<leftarrow>filter (\<lambda>d. author d = uid) docs. upvotes d - downvotes d)"
  by (simp add: aggregate_karma_def Let_def)

lemma find_save_user:
  "findUserById docs (user_ident u) = Some d \<Longrightarrow>
   findUserById (save_user u docs) (user_ident u) = Some (d\<lparr>karma := karma u\<rparr>)"
  unfolding findUserById_def save_user_def
  by (induction docs) auto

text \<open>
  C3. For a user document \<open>this\<close> stored in the users collection, \<open>updateKarma\<close> returns
  the sum over all posts and all comments whose author is that user of upvotes minus
  downvotes, sets the document's karma to it, and the stored user document read back has
  that karma.
\<close>

theorem updateKarma_writes_and_returns_sum:
  assumes "findUserById (users st) (user_ident this) = Some this"
  shows "snd (snd (updateKarma st this)) = karma_sum st (user_ident this)
       \<and> karma (fst (snd (updateKarma st this))) = karma_sum st (user_ident this)
       \<and> map_option karma (findUserById (users (fst (updateKarma st this))) (user_ident this))
           = Some (karma_sum st (user_ident this))
       \<and> posts (fst (updateKarma st this)) = posts st
       \<and> comments (fst (updateKarma st this)) = comments st
       \<and> votes (fst (updateKarma st this)) = votes st"
proof -
  have k: "karma (fst (snd (updateKarma st this))) = karma_sum st (user_ident this)"
    using aggregate_karma_total [of "user_ident this" "posts st"]
          aggregate_karma_total [of "user_ident this" "comments st"]
    by (simp add: updateKarma_def karma_sum_def Let_def)
  have r: "snd (snd (updateKarma st this)) = karma (fst (snd (updateKarma st this)))"
    by (simp add: updateKarma_def Let_def)
  have u: "users (fst (updateKarma st this)) = save_user (fst (snd (updateKarma st this))) (users st)"
    by (simp add: updateKarma_def Let_def)
  have i: "user_ident (fst (snd (updateKarma st this))) = user_ident this"
    by (simp add: updateKarma_def Let_def)
  have s: "map_option karma (findUserById (users (fst (updateKarma st this))) (user_ident this))
           = Some (karma_sum st (user_ident this))"
    using find_save_user [of "users st" "fst (snd (updateKarma st this))" this] assms
    by (simp add: u i k)
  show ?thesis
    using k r s by (simp add: updateKarma_def Let_def)
qed

theorem updateKarma_writes_and_returns_sum_witness:
  "findUserById (users db3) (user_ident \<lparr>user_ident = 10, karma = 0\<rparr>) = Some \<lparr>user_ident = 10, karma = 0\<rparr>
   \<and> snd (snd (updateKarma db3 \<lparr>user_ident = 10, karma = 0\<rparr>)) = -1
   \<and> map_option karma (findUserById (users (fst (updateKarma db3 \<lparr>user_ident = 10, karma = 0\<rparr>))) 10) = Some (-1)"
proof -
  have h: "findUserById (users db3) (user_ident \<lparr>user_ident = 10, karma = 0\<rparr>) = Some \<lparr>user_ident = 10, karma = 0\<rparr>"
    by (simp add: db3_def findUserById_def)
  have k: "karma_sum db3 10 = -1"
    by (simp add: karma_sum_def db3_def)
  show ?thesis
    using h updateKarma_writes_and_returns_sum [OF h] by (simp add: k)
qed

subsection \<open>The transition table\<close>

lemma findOne_Some:
  "findOne vs u t i = Some v \<Longrightarrow> v \<in> set vs \<and> has_key u t i v"
  unfolding findOne_def has_key_def
  by (induction vs) (auto split: if_splits)

lemma findOne_None:
  "findOne vs u t i = None \<longleftrightarrow> (\<forall>v\<in>set vs. \<not> has_key u t i v)"
  unfolding findOne_def has_key_def
  by (induction vs) auto

lemma has_key_vote_key: "has_key u t i v \<longleftrightarrow> vote_key v = (u, t, i)"
  by (auto simp: has_key_def vote_key_def)

lemma unique_remove1_filter:
  "unique_votes vs \<Longrightarrow> v \<in> set vs \<Longrightarrow> has_key u t i v \<Longrightarrow>
   remove1 v vs = filter (\<lambda>w. \<not> has_key u t i w) vs"
proof (induction vs)
  case Nil
  then show ?case by simp
next
  case (Cons w ws)
  show ?case
  proof (cases "w = v")
    case True
    have "\<forall>x\<in>set ws. \<not> has_key u t i x"
      using Cons.prems True by (force simp: unique_votes_def has_key_vote_key)
    then have "filter (\<lambda>w. \<not> has_key u t i w) ws = ws"
      by (simp add: filter_id_conv)
    with True Cons.prems show ?thesis by simp
  next
    case False
    have "\<not> has_key u t i w"
      using Cons.prems False by (force simp: unique_votes_def has_key_vote_key)
    with False Cons show ?thesis by (simp add: unique_votes_def)
  qed
qed

lemma unique_update_first_map:
  "unique_votes vs \<Longrightarrow> v \<in> set vs \<Longrightarrow> has_key u t i v \<Longrightarrow>
   update_first (\<lambda>w. w = v) f vs = map (\<lambda>w. if has_key u t i w then f w else w) vs"
proof (induction vs)
  case Nil
  then show ?case by simp
next
  case (Cons w ws)
  show ?case
  proof (cases "w = v")
    case True
    have "\<forall>x\<in>set ws. \<not> has_key u t i x"
      using Cons.prems True by (force simp: unique_votes_def has_key_vote_key)
    then have "map (\<lambda>w. if has_key u t i w then f w else w) ws = ws"
      by (simp add: map_idI)
    with True Cons.prems show ?thesis by simp
  next
    case False
    have "\<not> has_key u t i w"
      using Cons.prems False by (force simp: unique_votes_def has_key_vote_key)
    with False Cons show ?thesis by (simp add: unique_votes_def)
  qed
qed

lemma update_first_same: "(\<And>x. x \<in> set xs \<Longrightarrow> P x \<Longrightarrow> f x = x) \<Longrightarrow> update_first P f xs = xs"
  by (induction xs) auto

lemma insert_vote_fresh:
  "findOne vs (user v) (targetType v) (target v) = None \<Longrightarrow> insert_vote v vs = Inr (vs @ [v])"
  by (auto simp: insert_vote_def findOne_None has_key_def list_ex_iff)

lemma cast_value_JNum: "r = 1 \<or> r = 0 \<or> r = -1 \<Longrightarrow> cast_value E (JNum r) = Inr r"
  by (auto simp: cast_value_def)

lemma apply_vote_table:
  assumes r: "r = 1 \<or> r = 0 \<or> r = -1"
      and u: "unique_votes vs"
      and p: "ledger_value vs u t (ident doc) = 1 \<or> ledger_value vs u t (ident doc) = 0
              \<or> ledger_value vs u t (ident doc) = -1"
      and z: "ledger_value vs u t (ident doc) = 0 \<longrightarrow> findOne vs u t (ident doc) = None"
  shows "apply_vote E vs u t (JNum r) doc = Inr (reconcile_spec vs u t r doc)"
proof (cases "findOne vs u t (ident doc)")
  case None
  then have l: "ledger_value vs u t (ident doc) = 0" by (simp add: ledger_value_def)
  have i: "\<And>n. insert_vote \<lparr>user = u, targetType = t, target = ident doc, vote_value = n\<rparr> vs
           = Inr (vs @ [\<lparr>user = u, targetType = t, target = ident doc, vote_value = n\<rparr>])"
    using None by (simp add: insert_vote_fresh)
  show ?thesis
    using r None l i
    by (auto simp: apply_vote_def reconcile_spec_def transition_table_def perform_action_def
                   apply_delta_def cast_value_JNum)
next
  case (Some v)
  then have l: "ledger_value vs u t (ident doc) = vote_value v" by (simp add: ledger_value_def)
  have m: "v \<in> set vs" "has_key u t (ident doc) v" using findOne_Some [OF Some] by auto
  have nz: "vote_value v = 1 \<or> vote_value v = -1" using p z l Some by auto
  have d: "deleteOne v vs = filter (\<lambda>w. \<not> has_key u t (ident doc) w) vs"
    using unique_remove1_filter [OF u m] by (simp add: deleteOne_def)
  have s: "\<And>n. save_vote v n vs
           = map (\<lambda>w. if has_key u t (ident doc) w then w\<lparr>vote_value := n\<rparr> else w) vs"
    using unique_update_first_map [OF u m] by (simp add: save_vote_def)
  have same: "save_vote v (vote_value v) vs = vs"
    unfolding save_vote_def by (rule update_first_same) simp
  show ?thesis
  proof (cases "r = vote_value v")
    case True
    then show ?thesis
      using nz Some l same
      by (auto simp: apply_vote_def reconcile_spec_def transition_table_def perform_action_def
                     apply_delta_def cast_value_JNum)
  next
    case False
    then show ?thesis
      using r nz Some l d s
      by (auto simp: apply_vote_def reconcile_spec_def transition_table_def perform_action_def
                     apply_delta_def cast_value_JNum)
  qed
qed

lemma findById_Some: "findById docs i = Some p \<Longrightarrow> p \<in> set docs \<and> ident p = i"
  unfolding findById_def by (induction docs) (auto split: if_splits)

lemma update_first_cong_found:
  "find P xs = Some p \<Longrightarrow> f p = g p \<Longrightarrow> update_first P f xs = update_first P g xs"
  by (induction xs) (auto split: if_splits)

lemma save_counters_loaded:
  assumes "findById docs i = Some p"
  shows "save_counters p (p\<lparr>upvotes := a, downvotes := b\<rparr>) docs
         = Inr (update_first (\<lambda>d. ident d = i) (\<lambda>_. p\<lparr>upvotes := a, downvotes := b\<rparr>) docs)"
proof -
  have m: "p \<in> set docs" "ident p = i" using findById_Some [OF assms] by auto
  have f: "find (\<lambda>d. ident d = i) docs = Some p" using assms by (simp add: findById_def)
  have e: "list_ex (\<lambda>d. ident d = i) docs" using m by (auto simp: list_ex_iff)
  have "update_first (\<lambda>d. ident d = i)
          (\<lambda>d. d\<lparr>upvotes := (if a \<noteq> upvotes p then a else upvotes d),
                  downvotes := (if b \<noteq> downvotes p then b else downvotes d)\<rparr>) docs
        = update_first (\<lambda>d. ident d = i) (\<lambda>_. p\<lparr>upvotes := a, downvotes := b\<rparr>) docs"
    by (rule update_first_cong_found [OF f]) auto
  then show ?thesis using e m by (simp add: save_counters_def cong: if_cong)
qed

lemma reconcile_spec_counters:
  "snd (reconcile_spec vs u t r p)
   = p\<lparr>upvotes := upvotes (snd (reconcile_spec vs u t r p)),
        downvotes := downvotes (snd (reconcile_spec vs u t r p))\<rparr>"
  by (simp add: reconcile_spec_def split: prod.splits)

lemma signed_or_absent_ledger:
  "signed_or_absent vs u t i \<Longrightarrow>
   (ledger_value vs u t i = 1 \<or> ledger_value vs u t i = 0 \<or> ledger_value vs u t i = -1)
   \<and> (ledger_value vs u t i = 0 \<longrightarrow> findOne vs u t i = None)"
  by (auto simp: signed_or_absent_def ledger_value_def split: option.splits)

lemma vote_writes_table:
  assumes r: "r = 1 \<or> r = 0 \<or> r = -1"
      and u: "unique_votes vs"
      and s: "signed_or_absent vs u t i"
      and f: "findById docs i = Some p"
      and n: "\<not> txn_fault E"
  shows "vote_writes E vs u t (JNum r) p docs
         = Inr (fst (reconcile_spec vs u t r p),
                update_first (\<lambda>d. ident d = i) (\<lambda>_. snd (reconcile_spec vs u t r p)) docs)"
proof -
  have i: "ident p = i" using findById_Some [OF f] by simp
  have a: "apply_vote E vs u t (JNum r) p = Inr (reconcile_spec vs u t r p)"
    using apply_vote_table [OF r u] signed_or_absent_ledger [OF s] i by blast
  have c: "save_counters p (snd (reconcile_spec vs u t r p)) docs
           = Inr (update_first (\<lambda>d. ident d = i) (\<lambda>_. snd (reconcile_spec vs u t r p)) docs)"
    using save_counters_loaded [OF f] reconcile_spec_counters [of vs u t r p] by metis
  show ?thesis
    using a c n by (auto simp: vote_writes_def split: prod.splits)
qed

lemma recalculate_author_users:
  "\<not> karma_fault E \<Longrightarrow> \<exists>us. recalculate_author E st a = Inr us"
  by (simp add: recalculate_author_def split: option.splits)

text \<open>
  A vote request whose body value is the number 1, 0 or -1, on an existing post (or
  comment), served without a storage fault in a ledger with unique keys in which the
  voter's record for the target, if there is one, holds 1 or -1: the handler answers 200,
  the ledger after it is the ledger with the action of the transition table performed, and
  the stored target is the loaded one with the table's deltas applied to its counters, a
  decremented counter clamped at 0.
\<close>

theorem table_followed_on_signed_ledger:
  assumes "body_value rq = JNum r" and "r = 1 \<or> r = 0 \<or> r = -1"
      and "param_id rq = ObjectId i"
      and "\<not> txn_fault E" and "\<not> karma_fault E"
      and "unique_votes (votes st)"
  shows "(\<forall>p. findById (posts st) i = Some p \<and> signed_or_absent (votes st) (req_user rq) Post i \<longrightarrow>
            snd (vote_post E st rq) = Response 200 ''Vote recorded''
          \<and> votes (fst (vote_post E st rq)) = fst (reconcile_spec (votes st) (req_user rq) Post r p)
          \<and> posts (fst (vote_post E st rq))
              = update_first (\<lambda>d. ident d = i)
                  (\<lambda>_. snd (reconcile_spec (votes st) (req_user rq) Post r p)) (posts st)
          \<and> comments (fst (vote_post E st rq)) = comments st)
       \<and> (\<forall>c. findById (comments st) i = Some c \<and> signed_or_absent (votes st) (req_user rq) Comment i \<longrightarrow>
            snd (vote_comment E st rq) = Response 200 ''Vote recorded''
          \<and> votes (fst (vote_comment E st rq)) = fst (reconcile_spec (votes st) (req_user rq) Comment r c)
          \<and> comments (fst (vote_comment E st rq))
              = update_first (\<lambda>d. ident d = i)
                  (\<lambda>_. snd (reconcile_spec (votes st) (req_user rq) Comment r c)) (comments st)
          \<and> posts (fst (vote_comment E st rq)) = posts st)"
proof (intro conjI allI impI)
  fix p
  assume h: "findById (posts st) i = Some p \<and> signed_or_absent (votes st) (req_user rq) Post i"
  have v: "valid_vote_value E (body_value rq)"
    using assms(1,2) by (auto simp: valid_vote_value_def Number_js_def)
  have l: "vote_post_load E st rq = Inr p"
    using v assms(3) h by (simp add: vote_post_load_def)
  obtain us where k: "recalculate_author E st (author p) = Inr us"
    using recalculate_author_users [OF assms(5)] by blast
  have w: "vote_writes E (votes st) (req_user rq) Post (body_value rq) p (posts st)
           = Inr (fst (reconcile_spec (votes st) (req_user rq) Post r p),
                  update_first (\<lambda>d. ident d = i)
                    (\<lambda>_. snd (reconcile_spec (votes st) (req_user rq) Post r p)) (posts st))"
    using vote_writes_table [OF assms(2) assms(6) conjunct2 [OF h] conjunct1 [OF h] assms(4)]
    by (simp add: assms(1))
  have e: "vote_post E st rq
           = (st\<lparr>posts := update_first (\<lambda>d. ident d = i)
                    (\<lambda>_. snd (reconcile_spec (votes st) (req_user rq) Post r p)) (posts st),
                 votes := fst (reconcile_spec (votes st) (req_user rq) Post r p),
                 users := us\<rparr>, Response 200 ''Vote recorded'')"
    by (simp add: vote_post_def l vote_post_txn_def w k)
  show "snd (vote_post E st rq) = Response 200 ''Vote recorded''" by (simp add: e)
  show "votes (fst (vote_post E st rq)) = fst (reconcile_spec (votes st) (req_user rq) Post r p)"
    by (simp add: e)
  show "posts (fst (vote_post E st rq))
        = update_first (\<lambda>d. ident d = i)
            (\<lambda>_. snd (reconcile_spec (votes st) (req_user rq) Post r p)) (posts st)"
    by (simp add: e)
  show "comments (fst (vote_post E st rq)) = comments st" by (simp add: e)
next
  fix c
  assume h: "findById (comments st) i = Some c \<and> signed_or_absent (votes st) (req_user rq) Comment i"
  have v: "valid_vote_value E (body_value rq)"
    using assms(1,2) by (auto simp: valid_vote_value_def Number_js_def)
  have l: "vote_comment_load E st rq = Inr c"
    using v assms(3) h by (simp add: vote_comment_load_def)
  obtain us where k: "recalculate_author E st (author c) = Inr us"
    using recalculate_author_users [OF assms(5)] by blast
  have w: "vote_writes E (votes st) (req_user rq) Comment (body_value rq) c (comments st)
           = Inr (fst (reconcile_spec (votes st) (req_user rq) Comment r c),
                  update_first (\<lambda>d. ident d = i)
                    (\<lambda>_. snd (reconcile_spec (votes st) (req_user rq) Comment r c)) (comments st))"
    using vote_writes_table [OF assms(2) assms(6) conjunct2 [OF h] conjunct1 [OF h] assms(4)]
    by (simp add: assms(1))
  have e: "vote_comment E st rq
           = (st\<lparr>comments := update_first (\<lambda>d. ident d = i)
                    (\<lambda>_. snd (reconcile_spec (votes st) (req_user rq) Comment r c)) (comments st),
                 votes := fst (reconcile_spec (votes st) (req_user rq) Comment r c),
                 users := us\<rparr>, Response 200 ''Vote recorded'')"
    by (simp add: vote_comment_def l vote_comment_txn_def w k)
  show "snd (vote_comment E st rq) = Response 200 ''Vote recorded''" by (simp add: e)
  show "votes (fst (vote_comment E st rq)) = fst (reconcile_spec (votes st) (req_user rq) Comment r c)"
    by (simp add: e)
  show "comments (fst (vote_comment E st rq))
        = update_first (\<lambda>d. ident d = i)
            (\<lambda>_. snd (reconcile_spec (votes st) (req_user rq) Comment r c)) (comments st)"
    by (simp add: e)
  show "posts (fst (vote_comment E st rq)) = posts st" by (simp add: e)
qed

theorem table_followed_on_signed_ledger_example:
  "votes (fst (vote_post no_faults db2 \<lparr>req_user = 20, param_id = ObjectId 1, body_value = JNum (-1)\<rparr>))
     = [\<lparr>user = 20, targetType = Post, target = 1, vote_value = -1\<rparr>]
   \<and> posts (fst (vote_post no_faults db2 \<lparr>req_user = 20, param_id = ObjectId 1, body_value = JNum (-1)\<rparr>))
     = [\<lparr>ident = 1, author = 10, upvotes = 0, downvotes = 1\<rparr>]
   \<and> votes (fst (vote_comment no_faults db2 \<lparr>req_user = 20, param_id = ObjectId 2, body_value = JNum (-1)\<rparr>))
     = [\<lparr>user = 20, targetType = Post, target = 1, vote_value = 1\<rparr>,
        \<lparr>user = 20, targetType = Comment, target = 2, vote_value = -1\<rparr>]
   \<and> comments (fst (vote_comment no_faults db2 \<lparr>req_user = 20, param_id = ObjectId 2, body_value = JNum (-1)\<rparr>))
     = [\<lparr>ident = 2, author = 10, upvotes = 0, downvotes = 1, post = 1\<rparr>]"
proof -
  let ?rq = "\<lparr>req_user = 20, param_id = ObjectId 1, body_value = JNum (-1)\<rparr>"
  let ?rc = "\<lparr>req_user = 20, param_id = ObjectId 2, body_value = JNum (-1)\<rparr>"
  let ?p = "\<lparr>ident = 1, author = 10, upvotes = 1, downvotes = 0\<rparr>"
  let ?c = "\<lparr>ident = 2, author = 10, upvotes = 0, downvotes = 0, post = 1\<rparr>"
  have r: "(-1::int) = 1 \<or> (-1::int) = 0 \<or> (-1::int) = -1" by simp
  have f: "\<not> txn_fault no_faults" "\<not> karma_fault no_faults" by (simp_all add: no_faults_def)
  have u: "unique_votes (votes db2)" by (simp add: unique_votes_def db2_def db1_def)
  have p: "findById (posts db2) 1 = Some ?p \<and> signed_or_absent (votes db2) (req_user ?rq) Post 1"
    by (simp add: findById_def signed_or_absent_def findOne_def db2_def db1_def)
  have c: "findById (comments db2) 2 = Some ?c \<and> signed_or_absent (votes db2) (req_user ?rc) Comment 2"
    by (simp add: findById_def signed_or_absent_def findOne_def db2_def db1_def)
  have sp: "reconcile_spec (votes db2) 20 Post (-1) ?p
            = ([\<lparr>user = 20, targetType = Post, target = 1, vote_value = -1\<rparr>],
               \<lparr>ident = 1, author = 10, upvotes = 0, downvotes = 1\<rparr>)"
    by (simp add: reconcile_spec_def transition_table_def ledger_value_def findOne_def
                  perform_action_def has_key_def apply_delta_def db2_def db1_def)
  have sc: "reconcile_spec (votes db2) 20 Comment (-1) ?c
            = ([\<lparr>user = 20, targetType = Post, target = 1, vote_value = 1\<rparr>,
                \<lparr>user = 20, targetType = Comment, target = 2, vote_value = -1\<rparr>],
               \<lparr>ident = 2, author = 10, upvotes = 0, downvotes = 1, post = 1\<rparr>)"
    by (simp add: reconcile_spec_def transition_table_def ledger_value_def findOne_def
                  perform_action_def has_key_def apply_delta_def db2_def db1_def)
  have tp: "votes (fst (vote_post no_faults db2 ?rq)) = fst (reconcile_spec (votes db2) 20 Post (-1) ?p)
          \<and> posts (fst (vote_post no_faults db2 ?rq))
              = update_first (\<lambda>d. ident d = 1) (\<lambda>_. snd (reconcile_spec (votes db2) 20 Post (-1) ?p)) (posts db2)"
    using table_followed_on_signed_ledger [of ?rq "-1" 1 no_faults db2, OF _ r _ f u] p by simp
  have tc: "votes (fst (vote_comment no_faults db2 ?rc)) = fst (reconcile_spec (votes db2) 20 Comment (-1) ?c)
          \<and> comments (fst (vote_comment no_faults db2 ?rc))
              = update_first (\<lambda>d. ident d = 2) (\<lambda>_. snd (reconcile_spec (votes db2) 20 Comment (-1) ?c)) (comments db2)"
    using table_followed_on_signed_ledger [of ?rc "-1" 2 no_faults db2, OF _ r _ f u] c by simp
  have pp: "posts db2 = [?p]" by (simp add: db2_def db1_def)
  have cc: "comments db2 = [?c]" by (simp add: db2_def db1_def)
  show ?thesis
    using tp tc unfolding sp sc pp cc by simp
qed

text \<open>
  C1. User 20 sends the body value \<open>"0"\<close> on post 1 and then the number 1. After the first
  request the ledger holds a vote of value 0 for the voter and the post, so the previous
  value of the second request is 0. The table's row for previous 0 and requested +1 is
  create with upvotes +1; the handler finds the record, rewrites its value to 1 and
  leaves the counters: the request is answered 200 and the post still has 0 upvotes.
\<close>

theorem stored_zero_vote_breaks_table:
  "run [Register 10, CreatePost 10 1,
        VotePost no_faults \<lparr>req_user = 20, param_id = ObjectId 1, body_value = JStr ''0''\<rparr>]
     = \<lparr>posts = [\<lparr>ident = 1, author = 10, upvotes = 0, downvotes = 0\<rparr>], comments = [],
        votes = [\<lparr>user = 20, targetType = Post, target = 1, vote_value = 0\<rparr>],
        users = [\<lparr>user_ident = 10, karma = 0\<rparr>]\<rparr>
   \<and> ledger_value (votes (run [Register 10, CreatePost 10 1,
        VotePost no_faults \<lparr>req_user = 20, param_id = ObjectId 1, body_value = JStr ''0''\<rparr>])) 20 Post 1 = 0
   \<and> transition_table 0 1 = (Create 1, 1, 0)
   \<and> vote_post no_faults (run [Register 10, CreatePost 10 1,
        VotePost no_faults \<lparr>req_user = 20, param_id = ObjectId 1, body_value = JStr ''0''\<rparr>])
         \<lparr>req_user = 20, param_id = ObjectId 1, body_value = JNum 1\<rparr>
     = (\<lparr>posts = [\<lparr>ident = 1, author = 10, upvotes = 0, downvotes = 0\<rparr>], comments = [],
         votes = [\<lparr>user = 20, targetType = Post, target = 1, vote_value = 1\<rparr>],
         users = [\<lparr>user_ident = 10, karma = 0\<rparr>]\<rparr>,
        Response 200 ''Vote recorded'')
   \<and> upvotes (snd (reconcile_spec (votes (run [Register 10, CreatePost 10 1,
        VotePost no_faults \<lparr>req_user = 20, param_id = ObjectId 1, body_value = JStr ''0''\<rparr>])) 20 Post 1
         \<lparr>ident = 1, author = 10, upvotes = 0, downvotes = 0\<rparr>)) = 1"
  by code_simp

subsection \<open>A repeated vote\<close>

lemma cast_value_Number: "cast_value E val = Inr n \<Longrightarrow> Number_js E val = Some n"
  by (cases val) (auto simp: cast_value_def Number_js_def split: if_splits option.splits sum.splits)

lemma save_counters_unchanged:
  "findById docs i = Some p \<Longrightarrow> save_counters p p docs = Inr docs"
proof -
  assume f: "findById docs i = Some p"
  have e: "list_ex (\<lambda>d. ident d = ident p) docs"
    using findById_Some [OF f] by (auto simp: list_ex_iff)
  have "update_first (\<lambda>d. ident d = ident p)
          (\<lambda>d. d\<lparr>upvotes := (if upvotes p \<noteq> upvotes p then upvotes p else upvotes d),
                  downvotes := (if downvotes p \<noteq> downvotes p then downvotes p else downvotes d)\<rparr>) docs
        = docs"
    by (rule update_first_same) simp
  then show ?thesis using e by (simp add: save_counters_def)
qed

lemma apply_vote_repeat:
  assumes f: "findOne vs u t (ident p) = Some v"
      and z: "vote_value v \<noteq> 0"
      and n: "Number_js E val = Some (vote_value v)"
  shows "apply_vote E vs u t val p = Inr (vs, p) \<or> (\<exists>e. apply_vote E vs u t val p = Inl e)"
proof (cases "cast_value E val")
  case (Inl e)
  have "val \<noteq> JNum 0" using n z by (auto simp: Number_js_def)
  then show ?thesis using f Inl by (simp add: apply_vote_def)
next
  case (Inr m)
  have nz: "val \<noteq> JNum 0" using n z by (auto simp: Number_js_def)
  have m: "m = vote_value v" using cast_value_Number [OF Inr] n by simp
  have s: "save_vote v m vs = vs"
    unfolding save_vote_def m by (rule update_first_same) simp
  have a: "\<not> (vote_value v = 1 \<and> val = JNum (-1))" using n by (auto simp: Number_js_def)
  have b: "\<not> (vote_value v = -1 \<and> val = JNum 1)" using n by (auto simp: Number_js_def)
  show ?thesis using f Inr nz s a b by (auto simp: apply_vote_def Let_def)
qed

lemma vote_writes_repeat:
  assumes f: "findOne vs u t i = Some v"
      and z: "vote_value v \<noteq> 0"
      and n: "Number_js E val = Some (vote_value v)"
      and d: "findById docs i = Some p"
  shows "vote_writes E vs u t val p docs = Inr (vs, docs) \<or> (\<exists>e. vote_writes E vs u t val p docs = Inl e)"
proof -
  have i: "ident p = i" using findById_Some [OF d] by simp
  from apply_vote_repeat [of vs u t p v E val] f z n i
  have "apply_vote E vs u t val p = Inr (vs, p) \<or> (\<exists>e. apply_vote E vs u t val p = Inl e)" by simp
  then show ?thesis
    using save_counters_unchanged [OF d] by (auto simp: vote_writes_def)
qed

text \<open>
  C8. A voter who has a vote with a value other than 0 on a post (or comment) and submits
  a request whose value converts to that same value: ledger, posts and comments are after
  the request what they were before it, whatever the surroundings.
\<close>

theorem repeat_vote_is_noop:
  assumes "param_id rq = ObjectId i"
      and "vote_value v \<noteq> 0"
      and "Number_js E (body_value rq) = Some (vote_value v)"
  shows "(findOne (votes st) (req_user rq) Post i = Some v \<longrightarrow>
            votes (fst (vote_post E st rq)) = votes st
          \<and> posts (fst (vote_post E st rq)) = posts st
          \<and> comments (fst (vote_post E st rq)) = comments st)
       \<and> (findOne (votes st) (req_user rq) Comment i = Some v \<longrightarrow>
            votes (fst (vote_comment E st rq)) = votes st
          \<and> posts (fst (vote_comment E st rq)) = posts st
          \<and> comments (fst (vote_comment E st rq)) = comments st)"
proof (intro conjI impI)
  assume f: "findOne (votes st) (req_user rq) Post i = Some v"
  have "votes (fst (vote_post E st rq)) = votes st
      \<and> posts (fst (vote_post E st rq)) = posts st
      \<and> comments (fst (vote_post E st rq)) = comments st"
  proof (cases "vote_post_load E st rq")
    case (Inl r)
    then show ?thesis by (simp add: vote_post_def)
  next
    case (Inr p)
    then have d: "findById (posts st) i = Some p"
      using assms(1) by (auto simp: vote_post_load_def split: if_splits option.splits)
    from vote_writes_repeat [OF f assms(2) assms(3) d]
    show ?thesis
      by (auto simp: vote_post_def Inr vote_post_txn_def split: sum.splits)
  qed
  then show "votes (fst (vote_post E st rq)) = votes st"
    and "posts (fst (vote_post E st rq)) = posts st"
    and "comments (fst (vote_post E st rq)) = comments st" by simp_all
next
  assume f: "findOne (votes st) (req_user rq) Comment i = Some v"
  have "votes (fst (vote_comment E st rq)) = votes st
      \<and> posts (fst (vote_comment E st rq)) = posts st
      \<and> comments (fst (vote_comment E st rq)) = comments st"
  proof (cases "vote_comment_load E st rq")
    case (Inl r)
    then show ?thesis by (simp add: vote_comment_def)
  next
    case (Inr c)
    then have d: "findById (comments st) i = Some c"
      using assms(1) by (auto simp: vote_comment_load_def split: if_splits option.splits)
    from vote_writes_repeat [OF f assms(2) assms(3) d]
    show ?thesis
      by (auto simp: vote_comment_def Inr vote_comment_txn_def split: sum.splits)
  qed
  then show "votes (fst (vote_comment E st rq)) = votes st"
    and "posts (fst (vote_comment E st rq)) = posts st"
    and "comments (fst (vote_comment E st rq)) = comments st" by simp_all
qed

theorem repeat_vote_is_noop_witness:
  "votes (fst (vote_post no_faults db4 \<lparr>req_user = 20, param_id = ObjectId 1, body_value = JNum 1\<rparr>)) = votes db4
   \<and> posts (fst (vote_post no_faults db4 \<lparr>req_user = 20, param_id = ObjectId 1, body_value = JNum 1\<rparr>)) = posts db4
   \<and> votes (fst (vote_comment no_faults db4 \<lparr>req_user = 21, param_id = ObjectId 2, body_value = JNum (-1)\<rparr>)) = votes db4
   \<and> comments (fst (vote_comment no_faults db4 \<lparr>req_user = 21, param_id = ObjectId 2, body_value = JNum (-1)\<rparr>)) = comments db4"
proof -
  let ?rp = "\<lparr>req_user = 20, param_id = ObjectId 1, body_value = JNum 1\<rparr>"
  let ?rc = "\<lparr>req_user = 21, param_id = ObjectId 2, body_value = JNum (-1)\<rparr>"
  let ?vp = "\<lparr>user = 20, targetType = Post, target = 1, vote_value = 1\<rparr>"
  let ?vc = "\<lparr>user = 21, targetType = Comment, target = 2, vote_value = -1\<rparr>"
  have p1: "param_id ?rp = ObjectId 1" and p2: "vote_value ?vp \<noteq> 0"
    and p3: "Number_js no_faults (body_value ?rp) = Some (vote_value ?vp)"
    and p4: "findOne (votes db4) (req_user ?rp) Post 1 = Some ?vp"
    by (simp_all add: Number_js_def findOne_def db4_def db1_def)
  have c1: "param_id ?rc = ObjectId 2" and c2: "vote_value ?vc \<noteq> 0"
    and c3: "Number_js no_faults (body_value ?rc) = Some (vote_value ?vc)"
    and c4: "findOne (votes db4) (req_user ?rc) Comment 2 = Some ?vc"
    by (simp_all add: Number_js_def findOne_def db4_def db1_def)
  show ?thesis
    using repeat_vote_is_noop [OF p1 p2 p3, of db4] p4
          repeat_vote_is_noop [OF c1 c2 c3, of db4] c4
    by blast
qed

subsection \<open>Uniqueness of the ledger keys\<close>

lemma distinct_map_remove1: "distinct (map f xs) \<Longrightarrow> distinct (map f (remove1 x xs))"
proof (induction xs)
  case Nil
  then show ?case by simp
next
  case (Cons a xs)
  have "set (remove1 x xs) \<subseteq> set xs" by (rule set_remove1_subset)
  then have "f ` set (remove1 x xs) \<subseteq> f ` set xs" by blast
  with Cons show ?case by auto
qed

lemma map_key_update_first:
  "(\<And>x. g (f x) = g x) \<Longrightarrow> map g (update_first P f xs) = map g xs"
  by (induction xs) auto

lemma insert_vote_unique:
  "insert_vote v vs = Inr vs' \<Longrightarrow> unique_votes vs \<Longrightarrow> unique_votes vs'"
proof -
  assume i: "insert_vote v vs = Inr vs'" and u: "unique_votes vs"
  have n: "\<forall>w\<in>set vs. vote_key w \<noteq> vote_key v"
    using i by (auto simp: insert_vote_def vote_key_def list_ex_iff split: if_splits)
  have e: "vs' = vs @ [v]"
    using i by (auto simp: insert_vote_def split: if_splits)
  show "unique_votes vs'"
    using n u unfolding e unique_votes_def by auto
qed

lemma save_vote_unique: "unique_votes vs \<Longrightarrow> unique_votes (save_vote v n vs)"
  by (simp add: unique_votes_def save_vote_def map_key_update_first vote_key_def)

lemma deleteOne_unique: "unique_votes vs \<Longrightarrow> unique_votes (deleteOne v vs)"
  by (simp add: unique_votes_def deleteOne_def distinct_map_remove1)

lemma apply_vote_unique:
  assumes "apply_vote E vs u t val doc = Inr (vs', doc')" and "unique_votes vs"
  shows "unique_votes vs'"
  using assms
  by (auto simp: apply_vote_def Let_def save_vote_unique deleteOne_unique
           split: if_splits option.splits sum.splits dest: insert_vote_unique)

lemma vote_writes_unique:
  assumes "vote_writes E vs u t val p docs = Inr (vs', docs')" and "unique_votes vs"
  shows "unique_votes vs'"
  using assms
  by (auto simp: vote_writes_def split: sum.splits if_splits dest: apply_vote_unique)

lemma vote_post_unique:
  "unique_votes (votes st) \<Longrightarrow> unique_votes (votes (fst (vote_post E st rq)))"
  by (auto simp: vote_post_def vote_post_txn_def split: sum.splits dest: vote_writes_unique)

lemma vote_comment_unique:
  "unique_votes (votes st) \<Longrightarrow> unique_votes (votes (fst (vote_comment E st rq)))"
  by (auto simp: vote_comment_def vote_comment_txn_def split: sum.splits dest: vote_writes_unique)

lemma delete_post_unique:
  "unique_votes (votes st) \<Longrightarrow> unique_votes (votes (fst (delete_post st rq)))"
  by (auto simp: delete_post_def unique_votes_def distinct_map_filter split: idparam.splits option.splits)

lemma delete_comment_unique:
  "unique_votes (votes st) \<Longrightarrow> unique_votes (votes (fst (delete_comment st rq)))"
  by (auto simp: delete_comment_def unique_votes_def distinct_map_filter split: idparam.splits option.splits)

lemma exec_unique: "unique_votes (votes st) \<Longrightarrow> unique_votes (votes (exec st op))"
  by (cases op)
     (auto simp: vote_post_unique vote_comment_unique delete_post_unique delete_comment_unique
                 create_post_def create_comment_def register_user_def split: option.splits)

lemma foldl_exec_unique:
  "unique_votes (votes st) \<Longrightarrow> unique_votes (votes (foldl exec st ops))"
  by (induction ops arbitrary: st) (auto simp: exec_unique)

lemma unique_votes_at_most_one:
  "unique_votes vs \<Longrightarrow> length (filter (has_key u t i) vs) \<le> 1"
proof (induction vs)
  case Nil
  then show ?case by simp
next
  case (Cons w ws)
  show ?case
  proof (cases "has_key u t i w")
    case True
    have "\<forall>x\<in>set ws. \<not> has_key u t i x"
      using Cons.prems True by (force simp: unique_votes_def has_key_vote_key)
    then have "filter (has_key u t i) ws = []" by (simp add: filter_empty_conv)
    with True show ?thesis by simp
  next
    case False
    with Cons show ?thesis by (simp add: unique_votes_def)
  qed
qed

text \<open>
  C4. In every state that a sequence of requests reaches from the empty database there is
  at most one vote document for each (user, targetType, target), and a vote request on a
  post or on a comment, served in a ledger with unique keys, leaves a ledger with unique
  keys.
\<close>

theorem at_most_one_vote_per_key:
  "length (filter (has_key u t i) (votes (run ops))) \<le> 1
   \<and> (unique_votes (votes st) \<longrightarrow>
        unique_votes (votes (fst (vote_post E st rq)))
      \<and> unique_votes (votes (fst (vote_comment E st rq)))
      \<and> length (filter (has_key u t i) (votes (fst (vote_post E st rq)))) \<le> 1
      \<and> length (filter (has_key u t i) (votes (fst (vote_comment E st rq)))) \<le> 1)"
proof -
  have "unique_votes (votes empty_db)" by (simp add: empty_db_def unique_votes_def)
  then have "unique_votes (votes (run ops))"
    unfolding run_def by (rule foldl_exec_unique)
  then show ?thesis
    using unique_votes_at_most_one vote_post_unique vote_comment_unique by blast
qed

theorem at_most_one_vote_per_key_witness:
  "unique_votes (votes db2)
   \<and> unique_votes (votes (fst (vote_post no_faults db2 \<lparr>req_user = 21, param_id = ObjectId 1, body_value = JNum 1\<rparr>)))
   \<and> unique_votes (votes (fst (vote_comment no_faults db2 \<lparr>req_user = 21, param_id = ObjectId 2, body_value = JNum 1\<rparr>)))
   \<and> length (filter (has_key 21 Post 1)
         (votes (run [Register 10, CreatePost 10 1,
                      VotePost no_faults \<lparr>req_user = 21, param_id = ObjectId 1, body_value = JNum 1\<rparr>,
                      VotePost no_faults \<lparr>req_user = 21, param_id = ObjectId 1, body_value = JStr ''1''\<rparr>]))) \<le> 1"
proof -
  have u: "unique_votes (votes db2)" by (simp add: unique_votes_def db2_def db1_def vote_key_def)
  show ?thesis
    using u at_most_one_vote_per_key [of 21 Post 1 _ db2] by blast
qed

subsection \<open>Rejected requests\<close>

lemma valid_vote_value_iff:
  "valid_vote_value E v \<longleftrightarrow> Number_js E v \<in> {Some 1, Some 0, Some (-1)}"
  by (auto simp: valid_vote_value_def split: option.splits)

text \<open>
  C6, as the code has it. A request whose value does not convert (with \<open>Number\<close>) to 1, 0 or
  -1 is answered 400 by both handlers, the state is unchanged, and the answer is decided
  without the state. A request with a value that converts to 1, 0 or -1 and an id that
  casts but is the \<open>_id\<close> of no post (no comment) is answered 404, the state unchanged.
\<close>

theorem invalid_value_or_missing_target_rejected:
  "(Number_js E (body_value rq) \<notin> {Some 1, Some 0, Some (-1)} \<longrightarrow>
      vote_post E st rq = (st, Response 400 ''Invalid vote value'')
    \<and> vote_comment E st rq = (st, Response 400 ''Invalid vote value'')
    \<and> vote_post_load E st rq = vote_post_load E st' rq
    \<and> vote_comment_load E st rq = vote_comment_load E st' rq)
   \<and> (Number_js E (body_value rq) \<in> {Some 1, Some 0, Some (-1)} \<and> param_id rq = ObjectId i
        \<and> findById (posts st) i = None \<longrightarrow>
      vote_post E st rq = (st, Response 404 ''Post not found''))
   \<and> (Number_js E (body_value rq) \<in> {Some 1, Some 0, Some (-1)} \<and> param_id rq = ObjectId i
        \<and> findById (comments st) i = None \<longrightarrow>
      vote_comment E st rq = (st, Response 404 ''Comment not found''))"
  by (simp add: vote_post_def vote_comment_def vote_post_load_def vote_comment_load_def
                valid_vote_value_iff)

theorem invalid_value_or_missing_target_rejected_witness:
  "vote_post no_faults db1 \<lparr>req_user = 20, param_id = ObjectId 1, body_value = JNum 2\<rparr>
     = (db1, Response 400 ''Invalid vote value'')
   \<and> vote_comment no_faults db1 \<lparr>req_user = 20, param_id = ObjectId 2, body_value = JStr ''up''\<rparr>
     = (db1, Response 400 ''Invalid vote value'')
   \<and> vote_post no_faults db1 \<lparr>req_user = 20, param_id = ObjectId 7, body_value = JNum 1\<rparr>
     = (db1, Response 404 ''Post not found'')
   \<and> vote_comment no_faults db1 \<lparr>req_user = 20, param_id = ObjectId 7, body_value = JNum 1\<rparr>
     = (db1, Response 404 ''Comment not found'')"
proof -
  have a: "Number_js no_faults (body_value \<lparr>req_user = 20, param_id = ObjectId 1, body_value = JNum 2\<rparr>)
           \<notin> {Some 1, Some 0, Some (-1)}"
    by (simp add: Number_js_def)
  have b: "Number_js no_faults (body_value \<lparr>req_user = 20, param_id = ObjectId 2, body_value = JStr ''up''\<rparr>)
           \<notin> {Some 1, Some 0, Some (-1)}"
    by code_simp
  have c: "Number_js no_faults (body_value \<lparr>req_user = 20, param_id = ObjectId 7, body_value = JNum 1\<rparr>)
           \<in> {Some 1, Some 0, Some (-1)}
         \<and> param_id \<lparr>req_user = 20, param_id = ObjectId 7, body_value = JNum 1\<rparr> = ObjectId 7
         \<and> findById (posts db1) 7 = None \<and> findById (comments db1) 7 = None"
    by (simp add: Number_js_def findById_def db1_def)
  show ?thesis
    using a b c
      invalid_value_or_missing_target_rejected
        [of no_faults "\<lparr>req_user = 20, param_id = ObjectId 1, body_value = JNum 2\<rparr>" db1 db1 1]
      invalid_value_or_missing_target_rejected
        [of no_faults "\<lparr>req_user = 20, param_id = ObjectId 2, body_value = JStr ''up''\<rparr>" db1 db1 2]
      invalid_value_or_missing_target_rejected
        [of no_faults "\<lparr>req_user = 20, param_id = ObjectId 7, body_value = JNum 1\<rparr>" db1 db1 7]
    by blast
qed

text \<open>
  C6 as stated fails: the body value \<open>true\<close> is none of -1, 0, +1, yet the request is
  answered 200 and a vote document is stored.
\<close>

theorem boolean_value_accepted_counterexample:
  "JBool True \<notin> {JNum (-1), JNum 0, JNum 1}
   \<and> snd (vote_post no_faults db1 \<lparr>req_user = 20, param_id = ObjectId 1, body_value = JBool True\<rparr>)
       = Response 200 ''Vote recorded''
   \<and> votes (fst (vote_post no_faults db1 \<lparr>req_user = 20, param_id = ObjectId 1, body_value = JBool True\<rparr>))
       = [\<lparr>user = 20, targetType = Post, target = 1, vote_value = 1\<rparr>]
   \<and> votes db1 = []"
  by code_simp

subsection \<open>Failure of the karma recalculation\<close>

lemma recalculate_author_fault:
  "karma_fault E \<Longrightarrow> findUserById (users st) a = Some d \<Longrightarrow> recalculate_author E st a = Inl StorageError"
  by (simp add: recalculate_author_def)

text \<open>
  C5, as the code has it. When the karma recalculation of a vote request throws (the
  request has a valid value, its target exists and so does the target's author), the
  transaction is aborted: the state is the one before the request, without the ledger
  write and without the counter update, and the answer is 500.
\<close>

theorem karma_failure_aborts_vote:
  assumes "karma_fault E"
      and "valid_vote_value E (body_value rq)"
      and "param_id rq = ObjectId i"
  shows "(\<forall>p a. findById (posts st) i = Some p \<and> findUserById (users st) (author p) = Some a \<longrightarrow>
            vote_post E st rq = (st, Response 500 ''Server error''))
       \<and> (\<forall>c a. findById (comments st) i = Some c \<and> findUserById (users st) (author c) = Some a \<longrightarrow>
            vote_comment E st rq = (st, Response 500 ''Server error''))"
proof (intro conjI allI impI)
  fix p a
  assume h: "findById (posts st) i = Some p \<and> findUserById (users st) (author p) = Some a"
  have l: "vote_post_load E st rq = Inr p"
    using assms h by (simp add: vote_post_load_def)
  have k: "recalculate_author E st (author p) = Inl StorageError"
    using recalculate_author_fault [OF assms(1)] h by blast
  show "vote_post E st rq = (st, Response 500 ''Server error'')"
    by (simp add: vote_post_def l vote_post_txn_def k split: sum.splits prod.splits)
next
  fix c a
  assume h: "findById (comments st) i = Some c \<and> findUserById (users st) (author c) = Some a"
  have l: "vote_comment_load E st rq = Inr c"
    using assms h by (simp add: vote_comment_load_def)
  have k: "recalculate_author E st (author c) = Inl StorageError"
    using recalculate_author_fault [OF assms(1)] h by blast
  show "vote_comment E st rq = (st, Response 500 ''Server error'')"
    by (simp add: vote_comment_def l vote_comment_txn_def k split: sum.splits prod.splits)
qed

theorem karma_failure_aborts_vote_witness:
  "vote_post karma_fails db1 \<lparr>req_user = 20, param_id = ObjectId 1, body_value = JNum 1\<rparr>
     = (db1, Response 500 ''Server error'')
   \<and> vote_comment karma_fails db1 \<lparr>req_user = 20, param_id = ObjectId 2, body_value = JNum 1\<rparr>
     = (db1, Response 500 ''Server error'')"
proof -
  let ?rp = "\<lparr>req_user = 20, param_id = ObjectId 1, body_value = JNum 1\<rparr>"
  let ?rc = "\<lparr>req_user = 20, param_id = ObjectId 2, body_value = JNum 1\<rparr>"
  have f: "karma_fault karma_fails" by (simp add: karma_fails_def)
  have v: "valid_vote_value karma_fails (body_value ?rp)" "valid_vote_value karma_fails (body_value ?rc)"
    by (simp_all add: valid_vote_value_def Number_js_def)
  have i: "param_id ?rp = ObjectId 1" "param_id ?rc = ObjectId 2" by simp_all
  have p: "findById (posts db1) 1 = Some \<lparr>ident = 1, author = 10, upvotes = 0, downvotes = 0\<rparr>
           \<and> findUserById (users db1) (author \<lparr>ident = 1, author = 10, upvotes = 0, downvotes = 0\<rparr>)
               = Some \<lparr>user_ident = 10, karma = 0\<rparr>"
    by (simp add: findById_def findUserById_def db1_def)
  have c: "findById (comments db1) 2 = Some \<lparr>ident = 2, author = 10, upvotes = 0, downvotes = 0, post = 1\<rparr>
           \<and> findUserById (users db1) (author \<lparr>ident = 2, author = 10, upvotes = 0, downvotes = 0, post = 1\<rparr>)
               = Some \<lparr>user_ident = 10, karma = 0\<rparr>"
    by (simp add: findById_def findUserById_def db1_def)
  show ?thesis
    using karma_failure_aborts_vote [OF f v(1) i(1), of db1] p
          karma_failure_aborts_vote [OF f v(2) i(2), of db1] c
    by blast
qed

text \<open>
  C5 as stated fails: with a failing karma recalculation the first +1 vote of user 20 on
  post 1 leaves no vote document and no counted upvote, where the same request without the
  failure stores both.
\<close>

theorem karma_failure_rolls_back_counterexample:
  "votes (fst (vote_post karma_fails db1 \<lparr>req_user = 20, param_id = ObjectId 1, body_value = JNum 1\<rparr>)) = []
   \<and> map upvotes (posts (fst (vote_post karma_fails db1 \<lparr>req_user = 20, param_id = ObjectId 1, body_value = JNum 1\<rparr>))) = [0]
   \<and> votes (fst (vote_post no_faults db1 \<lparr>req_user = 20, param_id = ObjectId 1, body_value = JNum 1\<rparr>))
       = [\<lparr>user = 20, targetType = Post, target = 1, vote_value = 1\<rparr>]
   \<and> map upvotes (posts (fst (vote_post no_faults db1 \<lparr>req_user = 20, param_id = ObjectId 1, body_value = JNum 1\<rparr>))) = [1]"
  by code_simp

subsection \<open>Failure of a write of the transaction\<close>

lemma vote_writes_fault:
  "txn_fault E \<Longrightarrow> \<exists>e. vote_writes E vs u t val p docs = Inl e"
  by (auto simp: vote_writes_def split: sum.splits prod.splits)

text \<open>
  C7, as the code has it. When a write of the transaction throws (a conflicting writer, a
  duplicate key), the handler makes no second attempt: the transaction is aborted, the
  state is the one before the request, and the answer is 500.
\<close>

theorem write_conflict_aborts_without_retry:
  assumes "valid_vote_value E (body_value rq)"
      and "param_id rq = ObjectId i"
  shows "(\<forall>p. findById (posts st) i = Some p
              \<and> (txn_fault E \<or> (\<exists>e. vote_writes E (votes st) (req_user rq) Post (body_value rq) p (posts st) = Inl e)) \<longrightarrow>
            vote_post E st rq = (st, Response 500 ''Server error''))
       \<and> (\<forall>c. findById (comments st) i = Some c
              \<and> (txn_fault E \<or> (\<exists>e. vote_writes E (votes st) (req_user rq) Comment (body_value rq) c (comments st) = Inl e)) \<longrightarrow>
            vote_comment E st rq = (st, Response 500 ''Server error''))"
proof (intro conjI allI impI)
  fix p
  assume h: "findById (posts st) i = Some p
     \<and> (txn_fault E \<or> (\<exists>e. vote_writes E (votes st) (req_user rq) Post (body_value rq) p (posts st) = Inl e))"
  have l: "vote_post_load E st rq = Inr p"
    using assms h by (simp add: vote_post_load_def)
  obtain e where w: "vote_writes E (votes st) (req_user rq) Post (body_value rq) p (posts st) = Inl e"
    using h vote_writes_fault by blast
  show "vote_post E st rq = (st, Response 500 ''Server error'')"
    by (simp add: vote_post_def l vote_post_txn_def w)
next
  fix c
  assume h: "findById (comments st) i = Some c
     \<and> (txn_fault E \<or> (\<exists>e. vote_writes E (votes st) (req_user rq) Comment (body_value rq) c (comments st) = Inl e))"
  have l: "vote_comment_load E st rq = Inr c"
    using assms h by (simp add: vote_comment_load_def)
  obtain e where w: "vote_writes E (votes st) (req_user rq) Comment (body_value rq) c (comments st) = Inl e"
    using h vote_writes_fault by blast
  show "vote_comment E st rq = (st, Response 500 ''Server error'')"
    by (simp add: vote_comment_def l vote_comment_txn_def w)
qed

theorem write_conflict_aborts_without_retry_witness:
  "vote_post write_conflict db1 \<lparr>req_user = 20, param_id = ObjectId 1, body_value = JNum 1\<rparr>
     = (db1, Response 500 ''Server error'')
   \<and> vote_comment write_conflict db1 \<lparr>req_user = 20, param_id = ObjectId 2, body_value = JNum 1\<rparr>
     = (db1, Response 500 ''Server error'')"
proof -
  let ?rp = "\<lparr>req_user = 20, param_id = ObjectId 1, body_value = JNum 1\<rparr>"
  let ?rc = "\<lparr>req_user = 20, param_id = ObjectId 2, body_value = JNum 1\<rparr>"
  have f: "txn_fault write_conflict" by (simp add: write_conflict_def)
  have v: "valid_vote_value write_conflict (body_value ?rp)" "valid_vote_value write_conflict (body_value ?rc)"
    by (simp_all add: valid_vote_value_def Number_js_def)
  have i: "param_id ?rp = ObjectId 1" "param_id ?rc = ObjectId 2" by simp_all
  have p: "findById (posts db1) 1 = Some \<lparr>ident = 1, author = 10, upvotes = 0, downvotes = 0\<rparr>"
    by (simp add: findById_def db1_def)
  have c: "findById (comments db1) 2 = Some \<lparr>ident = 2, author = 10, upvotes = 0, downvotes = 0, post = 1\<rparr>"
    by (simp add: findById_def db1_def)
  show ?thesis
    using write_conflict_aborts_without_retry [OF v(1) i(1), of db1] p
          write_conflict_aborts_without_retry [OF v(2) i(2), of db1] c f
    by blast
qed

text \<open>
  C7 as stated fails: a conflict on the first attempt is answered 500 with nothing
  stored, where a reconciler that retries once (its second attempt meeting no conflict)
  records the vote.
\<close>

theorem no_retry_counterexample:
  "vote_post write_conflict db1 \<lparr>req_user = 20, param_id = ObjectId 1, body_value = JNum 1\<rparr>
     = (db1, Response 500 ''Server error'')
   \<and> snd (vote_post_with_retry [write_conflict, no_faults] db1
            \<lparr>req_user = 20, param_id = ObjectId 1, body_value = JNum 1\<rparr>)
       = Response 200 ''Vote recorded''
   \<and> votes (fst (vote_post_with_retry [write_conflict, no_faults] db1
            \<lparr>req_user = 20, param_id = ObjectId 1, body_value = JNum 1\<rparr>))
       = [\<lparr>user = 20, targetType = Post, target = 1, vote_value = 1\<rparr>]"
  by code_simp

subsection \<open>Requests served at the same time\<close>

text \<open>
  C2. Users 20 and 21 each send their first +1 vote on post 1, which has no votes. Both
  handlers pass \<open>Post.findById\<close> before either transaction starts; the transactions then
  run one after the other. Both vote documents are stored (and both requests answered
  200), but the post ends with one upvote: the second handler writes the counter it
  computed from the post it had loaded. Served one after the other, the same two requests
  leave two upvotes.
\<close>

theorem concurrent_first_votes_lose_update:
  "map upvotes (posts (loads_then_transactions no_faults db1
       [\<lparr>req_user = 20, param_id = ObjectId 1, body_value = JNum 1\<rparr>,
        \<lparr>req_user = 21, param_id = ObjectId 1, body_value = JNum 1\<rparr>])) = [1]
   \<and> votes (loads_then_transactions no_faults db1
       [\<lparr>req_user = 20, param_id = ObjectId 1, body_value = JNum 1\<rparr>,
        \<lparr>req_user = 21, param_id = ObjectId 1, body_value = JNum 1\<rparr>])
      = [\<lparr>user = 20, targetType = Post, target = 1, vote_value = 1\<rparr>,
         \<lparr>user = 21, targetType = Post, target = 1, vote_value = 1\<rparr>]
   \<and> map upvotes (posts (fst (vote_post no_faults
         (fst (vote_post no_faults db1 \<lparr>req_user = 20, param_id = ObjectId 1, body_value = JNum 1\<rparr>))
         \<lparr>req_user = 21, param_id = ObjectId 1, body_value = JNum 1\<rparr>))) = [2]"
  by code_simp

subsection \<open>The stored values\<close>

text \<open>
  C9. The body value \<open>"0"\<close> (a string) passes the validation, since \<open>Number("0")\<close> is 0,
  but is not \<open>=== 0\<close>: the handler takes the branch that stores a vote, and the stored
  document has the value 0. The state is reached from the empty database.
\<close>

theorem string_zero_stores_zero_vote:
  "vote_post no_faults db1 \<lparr>req_user = 20, param_id = ObjectId 1, body_value = JStr ''0''\<rparr>
     = (db1\<lparr>votes := [\<lparr>user = 20, targetType = Post, target = 1, vote_value = 0\<rparr>]\<rparr>,
        Response 200 ''Vote recorded'')
   \<and> votes (run [Register 10, CreatePost 10 1,
                 VotePost no_faults \<lparr>req_user = 20, param_id = ObjectId 1, body_value = JStr ''0''\<rparr>])
      = [\<lparr>user = 20, targetType = Post, target = 1, vote_value = 0\<rparr>]"
  by code_simp

subsection \<open>Deleting a post or a comment\<close>

lemma findById_remove1:
  "distinct (map ident docs) \<Longrightarrow> findById docs i = Some p \<Longrightarrow> findById (remove1 p docs) i = None"
proof -
  assume d: "distinct (map ident docs)" and f: "findById docs i = Some p"
  have m: "p \<in> set docs" "ident p = i" using findById_Some [OF f] by auto
  have "\<forall>x\<in>set (remove1 p docs). ident x \<noteq> i"
    using d m by (induction docs) (auto simp: image_iff)
  then show ?thesis by (simp add: findById_def find_None_iff)
qed

text \<open>
  C10. A successful deletion of post \<open>i\<close> removes the post, the comments of the post and
  the votes whose target is the post, and keeps every vote on a comment: a vote on a
  comment of the deleted post is still in the ledger, and its target is the \<open>_id\<close> of no
  stored comment (the \<open>_id\<close>s of the stored comments being distinct). A successful deletion
  of comment \<open>j\<close> through the comment route removes the votes on that comment.
\<close>

theorem delete_post_keeps_votes_on_its_comments:
  "(findById (posts st) i = Some p \<and> author p = u \<and> distinct (map ident (posts st))
      \<and> distinct (map ident (comments st)) \<longrightarrow>
      snd (delete_post st \<lparr>req_user = u, param_id = ObjectId i, body_value = b\<rparr>) = Response 200 ''Post removed''
    \<and> findById (posts (fst (delete_post st \<lparr>req_user = u, param_id = ObjectId i, body_value = b\<rparr>))) i = None
    \<and> (\<forall>c\<in>set (comments (fst (delete_post st \<lparr>req_user = u, param_id = ObjectId i, body_value = b\<rparr>))). post c \<noteq> i)
    \<and> (\<forall>v\<in>set (votes (fst (delete_post st \<lparr>req_user = u, param_id = ObjectId i, body_value = b\<rparr>))).
          \<not> (targetType v = Post \<and> target v = i))
    \<and> filter (\<lambda>v. targetType v = Comment) (votes (fst (delete_post st \<lparr>req_user = u, param_id = ObjectId i, body_value = b\<rparr>)))
        = filter (\<lambda>v. targetType v = Comment) (votes st)
    \<and> (\<forall>c\<in>set (comments st). \<forall>v\<in>set (votes st).
          post c = i \<and> targetType v = Comment \<and> target v = ident c \<longrightarrow>
            v \<in> set (votes (fst (delete_post st \<lparr>req_user = u, param_id = ObjectId i, body_value = b\<rparr>)))
          \<and> findById (comments (fst (delete_post st \<lparr>req_user = u, param_id = ObjectId i, body_value = b\<rparr>))) (target v) = None))
   \<and> (findById (comments st) j = Some c' \<and> author c' = u \<longrightarrow>
      snd (delete_comment st \<lparr>req_user = u, param_id = ObjectId j, body_value = b\<rparr>) = Response 200 ''Comment removed''
    \<and> (\<forall>v\<in>set (votes (fst (delete_comment st \<lparr>req_user = u, param_id = ObjectId j, body_value = b\<rparr>))).
          \<not> (targetType v = Comment \<and> target v = j)))"
proof (intro conjI impI)
  let ?rq = "\<lparr>req_user = u, param_id = ObjectId i, body_value = b\<rparr>"
  assume h: "findById (posts st) i = Some p \<and> author p = u \<and> distinct (map ident (posts st))
      \<and> distinct (map ident (comments st))"
  have i: "ident p = i" using findById_Some h by blast
  have e: "delete_post st ?rq
           = (st\<lparr>posts := remove1 p (posts st),
                 comments := filter (\<lambda>c. post c \<noteq> i) (comments st),
                 votes := filter (\<lambda>v. \<not> (targetType v = Post \<and> target v = i)) (votes st)\<rparr>,
              Response 200 ''Post removed'')"
    using h i by (simp add: delete_post_def)
  show "snd (delete_post st ?rq) = Response 200 ''Post removed''" by (simp add: e)
  show "findById (posts (fst (delete_post st ?rq))) i = None"
    using findById_remove1 [of "posts st" i p] h by (simp add: e)
  show "\<forall>c\<in>set (comments (fst (delete_post st ?rq))). post c \<noteq> i" by (simp add: e)
  show "\<forall>v\<in>set (votes (fst (delete_post st ?rq))). \<not> (targetType v = Post \<and> target v = i)"
    by (simp add: e)
  show "filter (\<lambda>v. targetType v = Comment) (votes (fst (delete_post st ?rq)))
        = filter (\<lambda>v. targetType v = Comment) (votes st)"
    by (auto simp: e intro: filter_cong)
  show "\<forall>c\<in>set (comments st). \<forall>v\<in>set (votes st).
          post c = i \<and> targetType v = Comment \<and> target v = ident c \<longrightarrow>
            v \<in> set (votes (fst (delete_post st ?rq)))
          \<and> findById (comments (fst (delete_post st ?rq))) (target v) = None"
  proof (intro ballI impI)
    fix c v
    assume c: "c \<in> set (comments st)" and v: "v \<in> set (votes st)"
       and k: "post c = i \<and> targetType v = Comment \<and> target v = ident c"
    have "\<forall>x\<in>set (comments st). ident x = ident c \<longrightarrow> x = c"
      using h c by (meson distinct_map inj_onD)
    then have "\<forall>x\<in>set (filter (\<lambda>c. post c \<noteq> i) (comments st)). ident x \<noteq> target v"
      using k by auto
    then have "findById (filter (\<lambda>c. post c \<noteq> i) (comments st)) (target v) = None"
      by (auto simp: findById_def find_None_iff)
    then show "v \<in> set (votes (fst (delete_post st ?rq)))
          \<and> findById (comments (fst (delete_post st ?rq))) (target v) = None"
      using v k by (simp add: e)
  qed
next
  let ?rq = "\<lparr>req_user = u, param_id = ObjectId j, body_value = b\<rparr>"
  assume h: "findById (comments st) j = Some c' \<and> author c' = u"
  have j: "ident c' = j" using findById_Some h by blast
  have e: "delete_comment st ?rq
           = (st\<lparr>comments := remove1 c' (comments st),
                 votes := filter (\<lambda>v. \<not> (targetType v = Comment \<and> target v = j)) (votes st)\<rparr>,
              Response 200 ''Comment removed'')"
    using h j by (simp add: delete_comment_def)
  show "snd (delete_comment st ?rq) = Response 200 ''Comment removed''" by (simp add: e)
  show "\<forall>v\<in>set (votes (fst (delete_comment st ?rq))). \<not> (targetType v = Comment \<and> target v = j)"
    by (simp add: e)
qed

theorem delete_post_keeps_votes_on_its_comments_witness:
  "\<lparr>user = 21, targetType = Comment, target = 2, vote_value = -1\<rparr>
     \<in> set (votes (fst (delete_post db4 \<lparr>req_user = 10, param_id = ObjectId 1, body_value = JUndefined\<rparr>)))
   \<and> findById (comments (fst (delete_post db4 \<lparr>req_user = 10, param_id = ObjectId 1, body_value = JUndefined\<rparr>))) 2 = None
   \<and> findById (posts (fst (delete_post db4 \<lparr>req_user = 10, param_id = ObjectId 1, body_value = JUndefined\<rparr>))) 1 = None
   \<and> filter (\<lambda>v. targetType v = Comment)
         (votes (fst (delete_post db4 \<lparr>req_user = 10, param_id = ObjectId 1, body_value = JUndefined\<rparr>)))
       = [\<lparr>user = 21, targetType = Comment, target = 2, vote_value = -1\<rparr>]
   \<and> snd (delete_comment db4 \<lparr>req_user = 10, param_id = ObjectId 2, body_value = JUndefined\<rparr>)
       = Response 200 ''Comment removed''
   \<and> filter (\<lambda>v. targetType v = Comment \<and> target v = 2)
         (votes (fst (delete_comment db4 \<lparr>req_user = 10, param_id = ObjectId 2, body_value = JUndefined\<rparr>)))
       = []"
proof -
  let ?p = "\<lparr>ident = 1, author = 10, upvotes = 1, downvotes = 0\<rparr>"
  let ?c = "\<lparr>ident = 2, author = 10, upvotes = 0, downvotes = 1, post = 1\<rparr>"
  let ?v = "\<lparr>user = 21, targetType = Comment, target = 2, vote_value = -1\<rparr>"
  have hp: "findById (posts db4) 1 = Some ?p \<and> author ?p = 10 \<and> distinct (map ident (posts db4))
            \<and> distinct (map ident (comments db4))"
    by (simp add: findById_def db4_def db1_def)
  have hc: "findById (comments db4) 2 = Some ?c \<and> author ?c = 10"
    by (simp add: findById_def db4_def db1_def)
  have m: "?c \<in> set (comments db4)" "?v \<in> set (votes db4)"
    by (simp_all add: db4_def db1_def)
  have k: "post ?c = 1 \<and> targetType ?v = Comment \<and> target ?v = ident ?c" by simp
  have f: "filter (\<lambda>v. targetType v = Comment) (votes db4) = [?v]"
    by (simp add: db4_def db1_def)
  note t = delete_post_keeps_votes_on_its_comments
             [where st = db4 and i = 1 and p = ?p and u = 10 and j = 2 and c' = ?c and b = JUndefined]
  have a: "?v \<in> set (votes (fst (delete_post db4 \<lparr>req_user = 10, param_id = ObjectId 1, body_value = JUndefined\<rparr>)))
         \<and> findById (comments (fst (delete_post db4 \<lparr>req_user = 10, param_id = ObjectId 1, body_value = JUndefined\<rparr>))) (target ?v) = None"
    using t hp m k by blast
  have d: "\<forall>v\<in>set (votes (fst (delete_comment db4 \<lparr>req_user = 10, param_id = ObjectId 2, body_value = JUndefined\<rparr>))).
             \<not> (targetType v = Comment \<and> target v = 2)"
    using t hc by blast
  have z: "filter (\<lambda>v. targetType v = Comment \<and> target v = 2)
             (votes (fst (delete_comment db4 \<lparr>req_user = 10, param_id = ObjectId 2, body_value = JUndefined\<rparr>))) = []"
    using d by (simp add: filter_empty_conv)
  show ?thesis
    using a t hp hc z by (simp add: f)
qed

end
